theory Spec2Isabelle
  imports Main "HOL-Library.Sublist"
begin

section \<open>JavaScript strings\<close>

text \<open>
  A JavaScript string is a sequence of UTF-16 code units; \<open>length\<close>, \<open>slice\<close>,
  \<open>includes\<close> and the regular expressions of the sources (none carries the \<open>u\<close> flag)
  all work on code units. A code unit is modelled as a natural number.
\<close>

type_synonym jsstring = "nat list"

definition ascii :: "string \<Rightarrow> jsstring" where
  "ascii s = map of_char s"

text \<open>
  The class \<open>\s\<close> of a regular expression and the characters removed by
  \<open>String.prototype.trim\<close> are the same set: WhiteSpace and LineTerminator of ECMAScript.
\<close>

definition isWhiteSpace :: "nat \<Rightarrow> bool" where
  "isWhiteSpace c \<longleftrightarrow>
     c = 9 \<or> c = 10 \<or> c = 11 \<or> c = 12 \<or> c = 13 \<or> c = 32 \<or> c = 160 \<or> c = 5760
     \<or> (8192 \<le> c \<and> c \<le> 8202) \<or> c = 8232 \<or> c = 8233 \<or> c = 8239 \<or> c = 8287
     \<or> c = 12288 \<or> c = 65279"

text \<open>The class \<open>\d\<close>: the ASCII digits.\<close>

definition isDigit :: "nat \<Rightarrow> bool" where
  "isDigit c \<longleftrightarrow> 48 \<le> c \<and> c \<le> 57"

text \<open>\<open>s.trim()\<close>\<close>

definition trimEnd :: "jsstring \<Rightarrow> jsstring" where
  "trimEnd s = rev (dropWhile isWhiteSpace (rev s))"

definition trim :: "jsstring \<Rightarrow> jsstring" where
  "trim s = trimEnd (dropWhile isWhiteSpace s)"

text \<open>\<open>s.includes(w)\<close>: \<open>w\<close> occurs in \<open>s\<close> as a contiguous run of code units.\<close>

fun startsWith :: "jsstring \<Rightarrow> jsstring \<Rightarrow> bool" where
  "startsWith s [] = True"
| "startsWith [] (w # ws) = False"
| "startsWith (c # cs) (w # ws) = (c = w \<and> startsWith cs ws)"

fun includesStr :: "jsstring \<Rightarrow> jsstring \<Rightarrow> bool" where
  "includesStr [] w = (w = [])"
| "includesStr (c # cs) w = (startsWith (c # cs) w \<or> includesStr cs w)"

text \<open>\<open>xs.join(sep)\<close> on an array of strings.\<close>

fun join :: "jsstring \<Rightarrow> jsstring list \<Rightarrow> jsstring" where
  "join sep [] = []"
| "join sep [x] = x"
| "join sep (x # y # ys) = x @ sep @ join sep (y # ys)"


section \<open>MergeDuplicates.tsx: title normalisation\<close>

text \<open>
  \<^verbatim>\<open>title.replace(/\s*[\<open>FF08\<close>(]\d+[)\<open>FF09\<close>]\s*$/, '').trim()\<close>

  \<open>enumeratorAt s\<close> is the regular expression tried at the first position of \<open>s\<close>.
  Each greedy quantifier is followed by a character outside its own class, so giving
  characters back never turns a failure into a match, and the longest run is the only
  candidate. \<open>$\<close> (no \<open>m\<close> flag) holds at the end of the input only.
\<close>

definition isOpenParen :: "nat \<Rightarrow> bool" where
  "isOpenParen c \<longleftrightarrow> c = 65288 \<or> c = 40"

definition isCloseParen :: "nat \<Rightarrow> bool" where
  "isCloseParen c \<longleftrightarrow> c = 41 \<or> c = 65289"

definition enumeratorAt :: "jsstring \<Rightarrow> bool" where
  "enumeratorAt s =
     (case dropWhile isWhiteSpace s of
        [] \<Rightarrow> False
      | c # r \<Rightarrow>
          isOpenParen c \<and> takeWhile isDigit r \<noteq> [] \<and>
          (case dropWhile isDigit r of
             [] \<Rightarrow> False
           | d # r' \<Rightarrow> isCloseParen d \<and> list_all isWhiteSpace r'))"

text \<open>
  \<open>replace\<close> with a non-global pattern and the replacement \<open>''\<close> removes the leftmost
  match. The pattern ends in \<open>$\<close>, so the match runs to the end of the title, and the
  pattern needs a parenthesis, so it does not match at the very end.
\<close>

fun stripEnumerator :: "jsstring \<Rightarrow> jsstring" where
  "stripEnumerator [] = []"
| "stripEnumerator (c # cs) =
     (if enumeratorAt (c # cs) then [] else c # stripEnumerator cs)"

definition getBaseName :: "jsstring \<Rightarrow> jsstring" where
  "getBaseName title = trim (stripEnumerator title)"

text \<open>
  The specification's words for an enumerator suffix: digits between an opening and a
  closing parenthesis, ASCII or full-width, with optional whitespace around. A title
  ends with an enumerator when one of its non-empty tails is such a suffix.
\<close>

definition enumSuffix :: "jsstring \<Rightarrow> bool" where
  "enumSuffix s =
     (case trim s of
        [] \<Rightarrow> False
      | c # r \<Rightarrow> isOpenParen c \<and> r \<noteq> [] \<and> isCloseParen (last r) \<and>
                 butlast r \<noteq> [] \<and> list_all isDigit (butlast r))"

fun endsWithEnumerator :: "jsstring \<Rightarrow> bool" where
  "endsWithEnumerator [] = False"
| "endsWithEnumerator (c # cs) = (enumSuffix (c # cs) \<or> endsWithEnumerator cs)"

definition enumShape :: "jsstring \<Rightarrow> bool" where
  "enumShape s \<longleftrightarrow> (\<exists>w1 p ds q w2. s = w1 @ p # ds @ q # w2 \<and> list_all isWhiteSpace w1 \<and>
      isOpenParen p \<and> ds \<noteq> [] \<and> list_all isDigit ds \<and> isCloseParen q \<and> list_all isWhiteSpace w2)"


section \<open>Data model\<close>

text \<open>
  Modelled from the spec: \<open>KnowledgeCategory\<close>, \<open>KnowledgeEntry\<close> and \<open>CATEGORY_FIELDS\<close>
  are declared in \<open>types.ts\<close>, which is not among the sources. The category is a closed
  enumeration; its five values are the ones \<open>ExtractedItem\<close> lists in
  \<open>LongTextImport.tsx\<close>. An entry has an opaque id, a category, a title, a sequence of
  keyword strings and a mapping from field keys to string values, kept here in
  insertion order, the order in which \<open>Object.values\<close> enumerates it.
\<close>

datatype category = Person | WorldView | Plot | Setting | Other

fun categoryName :: "category \<Rightarrow> jsstring" where
  "categoryName Person = [20154, 29289]"
| "categoryName WorldView = [19990, 30028, 35266]"
| "categoryName Plot = [21095, 24773]"
| "categoryName Setting = [35774, 23450]"
| "categoryName Other = [20854, 20182]"

record KnowledgeEntry =
  entryId :: jsstring
  category :: category
  title :: jsstring
  entryKeywords :: "jsstring list"
  details :: "(jsstring \<times> jsstring) list"


section \<open>MergeDuplicates.tsx: findDuplicates\<close>

record DuplicateGroup =
  baseName :: "jsstring option"
  groupCategory :: "jsstring option"
  entries :: "KnowledgeEntry list"

text \<open>The key of the grouping map: \<^verbatim>\<open>`${entry.category}::${baseName}`\<close>\<close>

definition groupKey :: "KnowledgeEntry \<Rightarrow> jsstring" where
  "groupKey entry = categoryName (category entry) @ ascii ''::'' @ getBaseName (title entry)"

text \<open>
  A \<open>Map\<close> keeps its keys in the order of their first insertion, and iterating it
  follows that order: it is an association list with distinct keys. One turn of the
  loop: \<^verbatim>\<open>if (!groups.has(key)) groups.set(key, []); groups.get(key)!.push(entry)\<close>
\<close>

definition pushEntry :: "(jsstring \<times> KnowledgeEntry list) list \<Rightarrow> KnowledgeEntry \<Rightarrow>
    (jsstring \<times> KnowledgeEntry list) list" where
  "pushEntry groups entry =
     (let key = groupKey entry;
          groups' = (if map_of groups key = None then groups @ [(key, [])] else groups)
      in map (\<lambda>(k, es). if k = key then (k, es @ [entry]) else (k, es)) groups')"

definition groupEntries :: "KnowledgeEntry list \<Rightarrow> (jsstring \<times> KnowledgeEntry list) list" where
  "groupEntries knowledge = foldl pushEntry [] knowledge"

text \<open>
  \<open>s.split(sep)\<close> with a non-empty string separator: the pieces between the
  occurrences of \<open>sep\<close>, found from left to right without overlap.
\<close>

function splitOn :: "jsstring \<Rightarrow> jsstring \<Rightarrow> jsstring \<Rightarrow> jsstring list" where
  "splitOn sep acc [] = [rev acc]"
| "splitOn sep acc (c # cs) =
     (if startsWith (c # cs) sep
      then rev acc # splitOn sep [] (drop (length sep - 1) cs)
      else splitOn sep (c # acc) cs)"
  by pat_completeness auto
termination
  by (relation "measure (\<lambda>(sep, acc, s). length s)") auto

text \<open>
  \<^verbatim>\<open>const [category, baseName] = key.split('::')\<close>: the first two pieces;
  a missing piece is \<open>undefined\<close> (\<open>None\<close>).
\<close>

definition makeGroup :: "jsstring \<times> KnowledgeEntry list \<Rightarrow> DuplicateGroup" where
  "makeGroup kv =
     (let pieces = splitOn (ascii ''::'') [] (fst kv)
      in \<lparr> baseName = (case pieces of _ # b # _ \<Rightarrow> Some b | _ \<Rightarrow> None),
           groupCategory = (case pieces of c # _ \<Rightarrow> Some c | _ \<Rightarrow> None),
           entries = snd kv \<rparr>)"

text \<open>
  \<open>Array.prototype.sort\<close> with a comparator is a stable sort: \<open>a\<close> stays before a
  later \<open>b\<close> unless the comparator is positive on \<open>(a, b)\<close>. Insertion from the right
  end computes it for a comparator that is a consistent order, as a difference of
  keys is.
\<close>

fun insertSorted :: "('a \<Rightarrow> 'a \<Rightarrow> int) \<Rightarrow> 'a \<Rightarrow> 'a list \<Rightarrow> 'a list" where
  "insertSorted cmp x [] = [x]"
| "insertSorted cmp x (y # ys) =
     (if cmp x y \<le> 0 then x # y # ys else y # insertSorted cmp x ys)"

definition sortWith :: "('a \<Rightarrow> 'a \<Rightarrow> int) \<Rightarrow> 'a list \<Rightarrow> 'a list" where
  "sortWith cmp xs = foldr (insertSorted cmp) xs []"

definition findDuplicates :: "KnowledgeEntry list \<Rightarrow> DuplicateGroup list" where
  "findDuplicates knowledge =
     (let groups = groupEntries knowledge;
          duplicates = map makeGroup (filter (\<lambda>kv. length (snd kv) > 1) groups)
      in sortWith (\<lambda>a b. int (length (entries b)) - int (length (entries a))) duplicates)"

text \<open>
  The grouping key in the specification's words: the pair of the category and the
  normalised title. \<open>firstSeen k knowledge\<close> is the position of the first entry with
  key \<open>k\<close>, the moment its group is first encountered.
\<close>

definition dupKey :: "KnowledgeEntry \<Rightarrow> category \<times> jsstring" where
  "dupKey entry = (category entry, getBaseName (title entry))"

definition firstSeen :: "category \<times> jsstring \<Rightarrow> KnowledgeEntry list \<Rightarrow> nat" where
  "firstSeen k knowledge = length (takeWhile (\<lambda>e. dupKey e \<noteq> k) knowledge)"

definition groupBefore :: "KnowledgeEntry list \<Rightarrow> DuplicateGroup \<Rightarrow> DuplicateGroup \<Rightarrow> bool" where
  "groupBefore knowledge a b \<longleftrightarrow>
     length (entries a) > length (entries b) \<or>
     (length (entries a) = length (entries b) \<and>
      firstSeen (dupKey (hd (entries a))) knowledge < firstSeen (dupKey (hd (entries b))) knowledge)"


section \<open>LongTextImport.tsx: splitText\<close>

text \<open>
  \<^verbatim>\<open>/(\<open>7B2C\<close>[\<open>4E00 4E8C 4E09 56DB 4E94 516D 4E03 516B 4E5D 5341 767E 5343\<close>\d]+\<open>7AE0\<close>[^\n]*|Chapter\s*\d+[^\n]*)/gi\<close>

  \<open>chapterPattern s\<close> is the pattern tried at the first position of \<open>s\<close>; it gives
  the length of the match. The two alternatives start with different characters.
  Under the \<open>i\<close> flag the letters of \<open>Chapter\<close> match in either case, and no
  character outside ASCII is folded onto an ASCII letter; the other characters of
  the pattern have no case. Each greedy run is followed by a character outside its
  class or by the end of the pattern, so the longest run is the only candidate.
\<close>

definition isChapterNumeral :: "nat \<Rightarrow> bool" where
  "isChapterNumeral c \<longleftrightarrow>
     c = 19968 \<or> c = 20108 \<or> c = 19977 \<or> c = 22235 \<or> c = 20116 \<or> c = 20845 \<or>
     c = 19971 \<or> c = 20843 \<or> c = 20061 \<or> c = 21313 \<or> c = 30334 \<or> c = 21315 \<or> isDigit c"

text \<open>An ASCII letter compared without regard to case; \<open>u\<close> is the upper-case letter.\<close>

definition sameLetter :: "nat \<Rightarrow> nat \<Rightarrow> bool" where
  "sameLetter u c \<longleftrightarrow> c = u \<or> c = u + 32"

fun startsWithLetters :: "jsstring \<Rightarrow> jsstring \<Rightarrow> bool" where
  "startsWithLetters s [] = True"
| "startsWithLetters [] (u # us) = False"
| "startsWithLetters (c # cs) (u # us) = (sameLetter u c \<and> startsWithLetters cs us)"

definition restOfLine :: "jsstring \<Rightarrow> jsstring" where
  "restOfLine s = takeWhile (\<lambda>c. c \<noteq> 10) s"

definition chapterPattern :: "jsstring \<Rightarrow> nat option" where
  "chapterPattern s =
     (case s of
        [] \<Rightarrow> None
      | c # r \<Rightarrow>
          if c = 31532 then
            (case dropWhile isChapterNumeral r of
               [] \<Rightarrow> None
             | d # r' \<Rightarrow>
                 if takeWhile isChapterNumeral r \<noteq> [] \<and> d = 31456
                 then Some (1 + length (takeWhile isChapterNumeral r) + 1 + length (restOfLine r'))
                 else None)
          else if startsWithLetters s (ascii ''CHAPTER'') then
            (let r1 = drop 7 s;
                 r2 = dropWhile isWhiteSpace r1;
                 r3 = dropWhile isDigit r2
             in if takeWhile isDigit r2 \<noteq> []
                then Some (length s - length r3 + length (restOfLine r3))
                else None)
          else None)"

text \<open>
  \<open>text.split(chapterPattern)\<close>: the pattern has one capturing group around the
  whole of it, so the result alternates the text between two matches and the
  matched heading. The pattern matches no empty string. A match at \<open>c # cs\<close> of
  length \<open>n\<close> is \<open>c\<close> and the next \<open>n - 1\<close> characters.
\<close>

function splitChapters :: "jsstring \<Rightarrow> jsstring \<Rightarrow> jsstring list" where
  "splitChapters acc [] = [rev acc]"
| "splitChapters acc (c # cs) =
     (case chapterPattern (c # cs) of
        None \<Rightarrow> splitChapters (c # acc) cs
      | Some n \<Rightarrow> rev acc # (c # take (n - 1) cs) # splitChapters [] (drop (n - 1) cs))"
  by pat_completeness auto
termination
  by (relation "measure (\<lambda>(acc, s). length s)") auto

text \<open>
  \<open>chapterPattern.test(part)\<close> searches \<open>part\<close> from \<open>lastIndex\<close> onwards. The loop
  of \<open>splitText\<close> sets \<open>lastIndex\<close> to 0 after a successful test, and a failing test
  sets it to 0 itself; \<open>split\<close> works on a copy of the pattern. So every test starts
  at 0.
\<close>

fun chapterTest :: "jsstring \<Rightarrow> bool" where
  "chapterTest [] = False"
| "chapterTest (c # cs) = (chapterPattern (c # cs) \<noteq> None \<or> chapterTest cs)"

text \<open>\<open>part.split(/\n\n+/)\<close>\<close>

function splitParagraphs :: "jsstring \<Rightarrow> jsstring \<Rightarrow> jsstring list" where
  "splitParagraphs acc [] = [rev acc]"
| "splitParagraphs acc [c] = [rev (c # acc)]"
| "splitParagraphs acc (c # d # cs) =
     (if c = 10 \<and> d = 10
      then rev acc # splitParagraphs [] (dropWhile (\<lambda>x. x = 10) cs)
      else splitParagraphs (c # acc) (d # cs))"
  by pat_completeness auto
termination
  by (relation "measure (\<lambda>(acc, s). length s)")
     (auto simp: less_Suc_eq_le intro: le_SucI length_dropWhile_le)

record TextChunk =
  content :: jsstring
  chunkChapter :: "jsstring option"

text \<open>\<open>currentChapter || undefined\<close>\<close>

definition chapterLabel :: "jsstring \<Rightarrow> jsstring option" where
  "chapterLabel currentChapter = (if currentChapter = [] then None else Some currentChapter)"

text \<open>
  The loop over the paragraphs of a long part; its state is the list of chunks and
  the buffer \<open>current\<close>.
\<close>

definition paragraphStep :: "nat \<Rightarrow> jsstring \<Rightarrow> TextChunk list \<times> jsstring \<Rightarrow> jsstring \<Rightarrow>
    TextChunk list \<times> jsstring" where
  "paragraphStep maxLen currentChapter st p =
     (let chunks = fst st; current = snd st
      in if length (current @ p) > maxLen \<and> current \<noteq> []
         then (chunks @ [\<lparr>content = trim current, chunkChapter = chapterLabel currentChapter\<rparr>], p)
         else (chunks, current @ [10, 10] @ p))"

definition splitLongPart :: "nat \<Rightarrow> jsstring \<Rightarrow> TextChunk list \<Rightarrow> jsstring \<Rightarrow> TextChunk list" where
  "splitLongPart maxLen currentChapter chunks part =
     (let paragraphs = splitParagraphs [] part;
          st = foldl (paragraphStep maxLen currentChapter) (chunks, []) paragraphs;
          current = snd st
      in if length (trim current) > 50
         then fst st @ [\<lparr>content = trim current, chunkChapter = chapterLabel currentChapter\<rparr>]
         else fst st)"

text \<open>
  One turn of the loop over the parts; the state is the list of chunks and
  \<open>currentChapter\<close>.
\<close>

definition partStep :: "nat \<Rightarrow> TextChunk list \<times> jsstring \<Rightarrow> jsstring \<Rightarrow> TextChunk list \<times> jsstring" where
  "partStep maxLen st raw =
     (let chunks = fst st; currentChapter = snd st; part = trim raw
      in if part = [] then st
         else if chapterTest part then (chunks, part)
         else if length part < 50 then st
         else if length part \<le> maxLen
         then (chunks @ [\<lparr>content = part, chunkChapter = chapterLabel currentChapter\<rparr>], currentChapter)
         else (splitLongPart maxLen currentChapter chunks part, currentChapter))"

definition splitText :: "jsstring \<Rightarrow> nat \<Rightarrow> TextChunk list" where
  "splitText text maxLen = fst (foldl (partStep maxLen) ([], []) (splitChapters [] text))"


section \<open>JSON values, errors and the completion endpoint\<close>

text \<open>
  A value obtained from \<open>JSON.parse\<close> or \<open>res.json()\<close>. A number is only ever tested
  for being zero here, so an integer stands for it. The properties of an object are
  in creation order, with distinct keys. \<open>undefined\<close> is \<open>None\<close> of \<open>json option\<close>.
\<close>

datatype json =
  JNull | JBool bool | JNum int | JStr jsstring | JArr "json list" | JObj "(jsstring \<times> json) list"

text \<open>The values that count as true in \<open>a || b\<close> and \<open>a ? b : c\<close>.\<close>

fun truthy :: "json option \<Rightarrow> bool" where
  "truthy None = False"
| "truthy (Some JNull) = False"
| "truthy (Some (JBool b)) = b"
| "truthy (Some (JNum n)) = (n \<noteq> 0)"
| "truthy (Some (JStr s)) = (s \<noteq> [])"
| "truthy (Some (JArr xs)) = True"
| "truthy (Some (JObj kvs)) = True"

text \<open>\<open>a || b\<close>\<close>

definition orElse :: "json option \<Rightarrow> json \<Rightarrow> json" where
  "orElse a b = (case a of None \<Rightarrow> b | Some v \<Rightarrow> if truthy a then v else b)"

text \<open>
  \<open>v.name\<close> on a value that is neither \<open>null\<close> nor \<open>undefined\<close>, for the names
  \<open>choices\<close>, \<open>message\<close>, \<open>content\<close>, \<open>title\<close> and \<open>keywords\<close>, which no prototype
  defines: only an object can have them. \<open>v[0]\<close> also reads the first element of an
  array and the first code unit of a string.
\<close>

fun getProp :: "jsstring \<Rightarrow> json \<Rightarrow> json option" where
  "getProp name (JObj kvs) = map_of kvs name"
| "getProp name v = None"

fun getFirst :: "json \<Rightarrow> json option" where
  "getFirst (JArr xs) = (case xs of [] \<Rightarrow> None | x # _ \<Rightarrow> Some x)"
| "getFirst (JObj kvs) = map_of kvs (ascii ''0'')"
| "getFirst (JStr s) = (case s of [] \<Rightarrow> None | c # _ \<Rightarrow> Some (JStr [c]))"
| "getFirst v = None"

text \<open>\<open>v?.access\<close>: \<open>undefined\<close> when \<open>v\<close> is \<open>null\<close> or \<open>undefined\<close>.\<close>

definition optionalChain :: "json option \<Rightarrow> (json \<Rightarrow> json option) \<Rightarrow> json option" where
  "optionalChain v access = (case v of None \<Rightarrow> None | Some JNull \<Rightarrow> None | Some x \<Rightarrow> access x)"

text \<open>
  Thrown values. \<open>Error\<close> is what the sources throw themselves; \<open>TypeError\<close> and
  \<open>SyntaxError\<close> come from the runtime (a property read on \<open>null\<close>, a call of
  something that is no function, a failed fetch, malformed JSON), with a message
  whose wording is the runtime's.
\<close>

datatype jserror = Error jsstring | TypeError jsstring | SyntaxError jsstring

fun errorMessage :: "jserror \<Rightarrow> jsstring" where
  "errorMessage (Error m) = m"
| "errorMessage (TypeError m) = m"
| "errorMessage (SyntaxError m) = m"

definition nullReadMessage :: jsstring where
  "nullReadMessage = ascii ''Cannot read properties of null (reading 'choices')''"

definition notAFunctionMessage :: jsstring where
  "notAFunctionMessage = ascii ''content.match is not a function''"

definition notIterableMessage :: jsstring where
  "notIterableMessage = ascii ''items is not iterable''"

text \<open>
  \<^verbatim>\<open>data.choices?.[0]?.message?.content\<close>: the first read has no \<open>?.\<close> before it and
  throws on \<open>null\<close>.
\<close>

definition messageContent :: "json \<Rightarrow> jserror + json option" where
  "messageContent data =
     (if data = JNull then Inl (TypeError nullReadMessage)
      else Inr (optionalChain
                 (optionalChain
                   (optionalChain (getProp (ascii ''choices'') data) getFirst)
                   (getProp (ascii ''message'')))
                 (getProp (ascii ''content''))))"

text \<open>
  The request passed to \<open>fetch\<close>: the URL, the \<open>Authorization\<close> header, and the
  \<open>model\<close> and \<open>messages\<close> of the JSON body; the method and the content type are the
  same in every call. A message is its role and its content.
\<close>

record request =
  url :: jsstring
  authorization :: jsstring
  requestModel :: jsstring
  requestMessages :: "(jsstring \<times> jsstring) list"

text \<open>
  The response: its status and the result of \<open>res.json()\<close>, which rejects when the
  body is no JSON. \<open>res.ok\<close> holds for a status from 200 to 299.
\<close>

record response =
  status :: nat
  jsonBody :: "jserror + json"

definition ok :: "response \<Rightarrow> bool" where
  "ok res \<longleftrightarrow> 200 \<le> status res \<and> status res \<le> 299"

text \<open>
  \<open>fetch\<close> is the outside world: from a request and the state of the world it gives
  a rejection or a response, and the next state of the world.
\<close>

type_synonym 'w fetch = "request \<Rightarrow> 'w \<Rightarrow> (jserror + response) \<times> 'w"

record AISettings =
  apiUrl :: jsstring
  apiKey :: jsstring
  aiModel :: jsstring
  systemPrompt :: jsstring

definition bearer :: "AISettings \<Rightarrow> jsstring" where
  "bearer settings = ascii ''Bearer '' @ apiKey settings"

text \<open>A natural number in a template literal: its decimal digits.\<close>

function numberToString :: "nat \<Rightarrow> jsstring" where
  "numberToString n = (if n < 10 then [48 + n] else numberToString (n div 10) @ [48 + n mod 10])"
  by pat_completeness auto
termination
  by (relation "measure id") auto

declare numberToString.simps [simp del]

text \<open>
  \<open>content.match(/\[[\s\S]*\]/)\<close> and \<open>rawContent.match(/\{[\s\S]*\}/)\<close>: the match
  starts at the first opening bracket and, the star being greedy, ends at the last
  closing bracket after it; there is none when no closing bracket follows the first
  opening one. \<open>delimited l r s\<close> is \<open>match[0]\<close>.
\<close>

definition delimited :: "nat \<Rightarrow> nat \<Rightarrow> jsstring \<Rightarrow> jsstring option" where
  "delimited l r s =
     (case dropWhile (\<lambda>c. c \<noteq> l) s of
        [] \<Rightarrow> None
      | c # rest \<Rightarrow>
          (case rev (dropWhile (\<lambda>c. c \<noteq> r) (rev rest)) of
             [] \<Rightarrow> None
           | m \<Rightarrow> Some (c # m)))"


section \<open>Literal texts of the sources\<close>

text \<open>The prompt used when the settings give none (AI module, l.127-128).\<close>

definition defaultSystemPrompt :: jsstring where
  "defaultSystemPrompt =
     [20320, 26159, 19968, 20010, 19987, 19994, 30340, 23567, 35828, 20889, 20316, 21161,
      25163, 12290, 24110, 21161, 29992, 25143, 36827, 34892, 21019, 20316, 12289, 28070,
      33394, 12289, 20998, 26512, 35282, 33394, 12289, 26500, 24605, 24773, 33410, 31561,
      12290, 10, 22238, 31572, 35201, 31616, 27905, 23454, 29992, 65292, 30452, 25509, 32473,
      20986, 24314, 35758, 25110, 20462, 25913, 21518, 30340, 20869, 23481, 12290]"

text \<open>The note on the knowledge base appended to every system prompt (AI module, l.131-135).\<close>

definition knowledgeNote :: jsstring where
  "knowledgeNote =
     [10, 10, 12304, 37325, 35201, 12305, 20320, 25317, 26377, 19968, 20010, 30693, 35782,
      24211, 65292, 37324, 38754, 23384, 20648, 20102, 23567, 35828, 30340, 20154, 29289,
      12289, 35774, 23450, 12289, 21095, 24773, 31561, 20449, 24687, 12290, 10, 24403, 29992,
      25143, 38382, 21040, 19982, 23567, 35828, 30456, 20851, 30340, 38382, 39064, 26102,
      65288, 22914, 35282, 33394, 20851, 31995, 12289, 35265, 38754, 27425, 25968, 12289,
      22320, 28857, 12289, 20107, 20214, 31561, 65289, 65292, 35831, 26681, 25454, 30693,
      35782, 24211, 20013, 30340, 20449, 24687, 22238, 31572, 12290, 10, 22914, 26524, 30693,
      35782, 24211, 20013, 27809, 26377, 30456, 20851, 20449, 24687, 65292, 35831, 35802,
      23454, 21578, 30693, 29992, 25143, 34, 30693, 35782, 24211, 20013, 26410, 25214, 21040,
      30456, 20851, 20449, 24687, 34, 12290]"

text \<open>The heading of the title index, with its line break (AI module, l.80).\<close>

definition indexHeader :: jsstring where
  "indexHeader =
     [12304, 30693, 35782, 24211, 32034, 24341, 12305, 10]"

text \<open>The ideographic comma joining the titles of one category (AI module, l.82).\<close>

definition titleSeparator :: jsstring where
  "titleSeparator =
     [12289]"

text \<open>The heading of the matched entries, between two line breaks and one (AI module, l.145).\<close>

definition relatedHeader :: jsstring where
  "relatedHeader =
     [10, 10, 20197, 19979, 26159, 19982, 38382, 39064, 30456, 20851, 30340, 35814, 32454,
      35774, 23450, 36164, 26009, 65306, 10]"

text \<open>A full-detail block is a line break and U+3010, the category, U+3011, the title, U+FF1A and a line break, the details, a line break (AI module, l.159).\<close>

definition fullBlockOpen :: jsstring where
  "fullBlockOpen =
     [10, 12304]"

text \<open>U+3011.\<close>

definition fullBlockClose :: jsstring where
  "fullBlockClose =
     [12305]"

text \<open>U+FF1A and a line break.\<close>

definition fullBlockColon :: jsstring where
  "fullBlockColon =
     [65306, 10]"

text \<open>U+FF1A between a field label and its value (AI module, l.103).\<close>

definition labelColon :: jsstring where
  "labelColon =
     [65306]"

text \<open>The heading of the summaries (AI module, l.168).\<close>

definition summaryHeader :: jsstring where
  "summaryHeader =
     [10, 10, 12304, 26356, 22810, 30456, 20851, 26465, 30446, 25688, 35201, 12305, 10]"

text \<open>A summary line is U+2022 and a space, the category, space hyphen space, the title, colon space, the summary, a line break (AI module, l.175).\<close>

definition summaryBullet :: jsstring where
  "summaryBullet =
     [8226, 32]"

text \<open>The trailer: its text before the number (AI module, l.185).\<close>

definition trailerOpen :: jsstring where
  "trailerOpen =
     [10, 65288, 27880, 65306, 36824, 26377, 32]"

text \<open>The trailer: its text after the number.\<close>

definition trailerClose :: jsstring where
  "trailerClose =
     [32, 20010, 30456, 20851, 26465, 30446, 26410, 26174, 31034, 65289]"

text \<open>The heading of the document excerpt (AI module, l.193).\<close>

definition documentHeader :: jsstring where
  "documentHeader =
     [10, 10, 24403, 21069, 25991, 26723, 20869, 23481, 65306, 10]"

text \<open>The message of the error thrown on a status outside 200-299, before the status (AI module, l.213).\<close>

definition apiErrorPrefix :: jsstring where
  "apiErrorPrefix =
     [65, 80, 73, 38169, 35823, 58, 32]"

text \<open>The placeholder returned when the reply has no content (AI module, l.215).\<close>

definition noResponse :: jsstring where
  "noResponse =
     [26080, 21709, 24212]"

text \<open>The extraction prompt up to the chapter hint (LongTextImport.tsx l.119-122).\<close>

definition extractPromptHead :: jsstring where
  "extractPromptHead =
     [20998, 26512, 20197, 19979, 23567, 35828, 29255, 27573, 65292, 25552, 21462, 20854,
      20013, 30340, 20154, 29289, 12289, 19990, 30028, 35266, 12289, 37325, 35201, 21095,
      24773, 12289, 35774, 23450, 31561, 20449, 24687, 12290, 10, 22914, 26524, 27809, 26377,
      26126, 26174, 30340, 35774, 23450, 20449, 24687, 21487, 20197, 36339, 36807, 12290, 10,
      36820, 22238, 74, 83, 79, 78, 25968, 32452, 26684, 24335, 65306, 91, 123, 34, 99, 97,
      116, 101, 103, 111, 114, 121, 34, 58, 34, 20154, 29289, 124, 19990, 30028, 35266, 124,
      21095, 24773, 124, 35774, 23450, 124, 20854, 20182, 34, 44, 34, 116, 105, 116, 108, 101,
      34, 58, 34, 21517, 31216, 34, 44, 34, 107, 101, 121, 119, 111, 114, 100, 115, 34, 58,
      91, 34, 20851, 38190, 35789, 34, 93, 44, 34, 99, 111, 110, 116, 101, 110, 116, 34, 58,
      34, 35814, 32454, 25551, 36848, 34, 125, 93, 10, 21482, 36820, 22238, 74, 83, 79, 78,
      25968, 32452, 65292, 19981, 35201, 20854, 20182, 20869, 23481, 12290, 22914, 26524,
      27809, 26377, 21487, 25552, 21462, 30340, 20869, 23481, 65292, 36820, 22238, 31354,
      25968, 32452, 32, 91, 93, 10]"

text \<open>The extraction prompt between the chapter hint and the chunk (l.123-125).\<close>

definition extractPromptMid :: jsstring where
  "extractPromptMid =
     [10, 25991, 26412, 29255, 27573, 65306, 10]"

text \<open>The chapter hint before the chapter label (l.108).\<close>

definition chapterHintPrefix :: jsstring where
  "chapterHintPrefix =
     [10, 24403, 21069, 31456, 33410, 65306]"

text \<open>The message shown when no API key is configured (LongTextImport.tsx l.93, MergeDuplicates.tsx l.62).\<close>

definition configError :: jsstring where
  "configError =
     [35831, 20808, 22312, 32, 65, 73, 35774, 32622, 32, 20013, 37197, 32622, 32, 65, 80, 73,
      32, 75, 101, 121]"

text \<open>The merge prompt up to the category (MergeDuplicates.tsx l.92-104).\<close>

definition mergePromptHead :: jsstring where
  "mergePromptHead =
     [20320, 26159, 19968, 20010, 19987, 19994, 30340, 23567, 35828, 36164, 26009, 25972,
      29702, 19987, 23478, 12290, 35831, 23558, 20197, 19979, 22810, 20010, 20851, 20110,
      21516, 19968, 20027, 39064, 30340, 36164, 26009, 26465, 30446, 21512, 24182, 25104,
      19968, 20010, 23436, 25972, 12289, 35814, 32454, 30340, 26465, 30446, 12290, 10, 10,
      35201, 27714, 65306, 10, 49, 46, 32, 25972, 21512, 25152, 26377, 20449, 24687, 65292,
      19981, 35201, 36951, 28431, 20219, 20309, 32454, 33410, 10, 50, 46, 32, 21435, 38500,
      37325, 22797, 20869, 23481, 65292, 20445, 30041, 29420, 29305, 20449, 24687, 10, 51, 46,
      32, 32452, 32455, 25104, 36830, 36143, 30340, 25551, 36848, 10, 52, 46, 32, 22914,
      26524, 26377, 30683, 30462, 20449, 24687, 65292, 37117, 20445, 30041, 24182, 26631,
      27880, 10, 53, 46, 32, 36755, 20986, 74, 83, 79, 78, 26684, 24335, 65292, 21253, 21547,
      20197, 19979, 23383, 27573, 65306, 10, 32, 32, 32, 45, 32, 116, 105, 116, 108, 101, 58,
      32, 21512, 24182, 21518, 30340, 26631, 39064, 10, 32, 32, 32, 45, 32, 107, 101, 121,
      119, 111, 114, 100, 115, 58, 32, 20851, 38190, 35789, 25968, 32452, 10, 32, 32, 32, 45,
      32, 99, 111, 110, 116, 101, 110, 116, 58, 32, 21512, 24182, 21518, 30340, 23436, 25972,
      20869, 23481, 65288, 33267, 23569, 51, 48, 48, 23383, 65292, 35814, 32454, 25551, 36848,
      65289, 10, 10, 20998, 31867, 58, 32]"

text \<open>The merge prompt between the category and the base name.\<close>

definition mergePromptTopic :: jsstring where
  "mergePromptTopic =
     [10, 20027, 39064, 58, 32]"

text \<open>The merge prompt between the base name and the number of entries.\<close>

definition mergePromptCount :: jsstring where
  "mergePromptCount =
     [10, 26465, 30446, 25968, 37327, 58, 32]"

text \<open>The merge prompt between the number of entries and their contents.\<close>

definition mergePromptEntries :: jsstring where
  "mergePromptEntries =
     [10, 10, 21407, 22987, 26465, 30446, 20869, 23481, 65306, 10]"

text \<open>The end of the merge prompt.\<close>

definition mergePromptTail :: jsstring where
  "mergePromptTail =
     [10, 10, 35831, 36820, 22238, 74, 83, 79, 78, 26684, 24335, 65292, 20363, 22914, 65306,
      10, 123, 34, 116, 105, 116, 108, 101, 34, 58, 32, 34, 46, 46, 46, 34, 44, 32, 34, 107,
      101, 121, 119, 111, 114, 100, 115, 34, 58, 32, 91, 34, 46, 46, 46, 34, 44, 32, 34, 46,
      46, 46, 34, 93, 44, 32, 34, 99, 111, 110, 116, 101, 110, 116, 34, 58, 32, 34, 46, 46,
      46, 34, 125]"

text \<open>The rendering of one entry of a group starts with this, then its number, colon space, its title (l.78).\<close>

definition entryOpen :: jsstring where
  "entryOpen =
     [12304, 26465, 30446]"

text \<open>Between the title and the keywords of an entry.\<close>

definition entryKeywordsLabel :: jsstring where
  "entryKeywordsLabel =
     [12305, 10, 20851, 38190, 35789, 58, 32]"

text \<open>The rule between two entries (l.79).\<close>

definition entrySeparator :: jsstring where
  "entrySeparator =
     [10, 10, 45, 45, 45, 10, 10]"

text \<open>The message of the error thrown on a status outside 200-299, before the status (l.118).\<close>

definition mergeApiErrorPrefix :: jsstring where
  "mergeApiErrorPrefix =
     [65, 80, 73, 32, 38169, 35823, 58, 32]"

text \<open>The message shown when the reply holds no brace-delimited text (l.156).\<close>

definition formatError :: jsstring where
  "formatError =
     [65, 73, 32, 36820, 22238, 26684, 24335, 38169, 35823, 65292, 35831, 37325, 35797]"

text \<open>The prefix of the message shown when the merge throws (l.159).\<close>

definition mergeFailedPrefix :: jsstring where
  "mergeFailedPrefix =
     [21512, 24182, 22833, 36133, 58, 32]"

text \<open>The message used for a thrown value that is no Error (l.159).\<close>

definition unknownError :: jsstring where
  "unknownError =
     [26410, 30693, 38169, 35823]"

text \<open>The suffix of the default title of a merged entry (l.139).\<close>

definition mergedSuffix :: jsstring where
  "mergedSuffix =
     [65288, 21512, 24182, 65289]"


section \<open>The AI module: getMatchedKnowledge\<close>

text \<open>
  Modelled from the spec: the store (\<open>useStore\<close>) is not among the sources; the
  matcher reads its two lists of entries, the local and the external one.
\<close>

record Store =
  knowledge :: "KnowledgeEntry list"
  externalKnowledge :: "KnowledgeEntry list"

text \<open>
  \<open>String.prototype.toLowerCase\<close> is the Unicode mapping of the runtime; the functions
  below take it as the parameter \<open>lc\<close>. \<open>asciiLower\<close> agrees with it on every string
  whose code units are ASCII or have no case, such as CJK text.
\<close>

definition asciiLower :: "jsstring \<Rightarrow> jsstring" where
  "asciiLower s = map (\<lambda>c. if 65 \<le> c \<and> c \<le> 90 then c + 32 else c) s"

text \<open>
  \<^verbatim>\<open>.replace(/[\<open>FF0C 3002 FF1F FF01 3001\<close>""''\<open>FF1A FF1B FF08 FF09 3010 3011\<close>]/g, ' ')\<close>:
  the class holds eleven full-width marks and the ASCII double and single quote.
\<close>

definition isQueryPunctuation :: "nat \<Rightarrow> bool" where
  "isQueryPunctuation c \<longleftrightarrow>
     c = 65292 \<or> c = 12290 \<or> c = 65311 \<or> c = 65281 \<or> c = 12289 \<or> c = 34 \<or> c = 39 \<or>
     c = 65306 \<or> c = 65307 \<or> c = 65288 \<or> c = 65289 \<or> c = 12304 \<or> c = 12305"

definition replacePunctuation :: "jsstring \<Rightarrow> jsstring" where
  "replacePunctuation s = map (\<lambda>c. if isQueryPunctuation c then 32 else c) s"

text \<open>\<open>s.split(/\s+/)\<close>\<close>

function splitWhitespace :: "jsstring \<Rightarrow> jsstring \<Rightarrow> jsstring list" where
  "splitWhitespace acc [] = [rev acc]"
| "splitWhitespace acc (c # cs) =
     (if isWhiteSpace c
      then rev acc # splitWhitespace [] (dropWhile isWhiteSpace cs)
      else splitWhitespace (c # acc) cs)"
  by pat_completeness auto
termination
  by (relation "measure (\<lambda>(acc, s). length s)")
     (auto simp: less_Suc_eq_le intro: length_dropWhile_le)

definition queryWords :: "jsstring \<Rightarrow> jsstring list" where
  "queryWords normalizedText =
     filter (\<lambda>w. length w \<ge> 2) (splitWhitespace [] (replacePunctuation normalizedText))"

text \<open>
  The predicate of \<open>allKnowledge.filter\<close>. The keywords are an array of strings and
  the details an object of strings by the type of an entry, so the \<open>typeof\<close> and
  \<open>Array.isArray\<close> guards of the source let every value through.
\<close>

definition matchesEntry :: "(jsstring \<Rightarrow> jsstring) \<Rightarrow> jsstring \<Rightarrow> jsstring list \<Rightarrow> KnowledgeEntry \<Rightarrow> bool" where
  "matchesEntry lc normalizedText words k =
     (if title k \<noteq> [] \<and> includesStr normalizedText (lc (title k)) then True
      else if list_ex (\<lambda>kw. let keyword = lc (trim kw)
                             in if keyword = [] then False else includesStr normalizedText keyword)
                (entryKeywords k) then True
      else (let detailsText = lc (join [32] (map snd (details k)));
                matchCount = length (filter (\<lambda>w.
                     includesStr (lc (title k)) w \<or>
                     list_ex (\<lambda>kw. includesStr (lc kw) w) (entryKeywords k) \<or>
                     includesStr detailsText w) words)
            in matchCount \<ge> 2))"

definition getMatchedKnowledge :: "(jsstring \<Rightarrow> jsstring) \<Rightarrow> Store \<Rightarrow> jsstring \<Rightarrow> KnowledgeEntry list" where
  "getMatchedKnowledge lc store text =
     (let allKnowledge = knowledge store @ externalKnowledge store;
          normalizedText = lc text
      in filter (matchesEntry lc normalizedText (queryWords normalizedText)) allKnowledge)"

text \<open>
  Claim C2 in its own words. The tokens of a query: lower-case it, replace the
  punctuation the specification lists (with the curly quotes U+201C, U+201D, U+2018,
  U+2019) by spaces, split at runs of whitespace, drop the tokens shorter than two
  characters. An entry is relevant when its non-empty lower-cased title occurs in the
  lower-cased query, or a trimmed lower-cased non-empty keyword does, or at least two
  tokens occur in the title, in a keyword or in the concatenation of the detail
  values, each taken as it is stored.
\<close>

definition isListedPunctuation :: "nat \<Rightarrow> bool" where
  "isListedPunctuation c \<longleftrightarrow>
     c = 65292 \<or> c = 12290 \<or> c = 65311 \<or> c = 65281 \<or> c = 12289 \<or>
     c = 8220 \<or> c = 8221 \<or> c = 8216 \<or> c = 8217 \<or>
     c = 65306 \<or> c = 65307 \<or> c = 65288 \<or> c = 65289 \<or> c = 12304 \<or> c = 12305"

text \<open>The maximal runs of characters that are no separator, from left to right.\<close>

function runsOutside :: "(nat \<Rightarrow> bool) \<Rightarrow> jsstring \<Rightarrow> jsstring list" where
  "runsOutside sep s =
     (case dropWhile sep s of
        [] \<Rightarrow> []
      | c # r \<Rightarrow> (c # takeWhile (\<lambda>x. \<not> sep x) r) # runsOutside sep (dropWhile (\<lambda>x. \<not> sep x) r))"
  by pat_completeness auto
termination
proof (relation "measure (\<lambda>(sep, s). length s)")
  show "wf (measure (\<lambda>(sep, s). length s))" by simp
next
  fix sep :: "nat \<Rightarrow> bool" and s c r
  assume "dropWhile sep s = c # r"
  then have "length (c # r) \<le> length s"
    by (metis length_dropWhile_le)
  moreover have "length (dropWhile (\<lambda>x. \<not> sep x) r) \<le> length r"
    by (rule length_dropWhile_le)
  ultimately show "((sep, dropWhile (\<lambda>x. \<not> sep x) r), (sep, s)) \<in> measure (\<lambda>(sep, s). length s)"
    by simp
qed

declare runsOutside.simps [simp del]

definition tokensWith :: "(nat \<Rightarrow> bool) \<Rightarrow> jsstring \<Rightarrow> jsstring list" where
  "tokensWith punct lowered =
     filter (\<lambda>w. 2 \<le> length w) (runsOutside (\<lambda>c. isWhiteSpace c \<or> punct c) lowered)"

definition relevantAsStated :: "(jsstring \<Rightarrow> jsstring) \<Rightarrow> jsstring \<Rightarrow> KnowledgeEntry \<Rightarrow> bool" where
  "relevantAsStated lc query k \<longleftrightarrow>
     (title k \<noteq> [] \<and> includesStr (lc query) (lc (title k)))
     \<or> (\<exists>kw \<in> set (entryKeywords k). lc (trim kw) \<noteq> [] \<and> includesStr (lc query) (lc (trim kw)))
     \<or> 2 \<le> length (filter (\<lambda>w.
            includesStr (title k) w
            \<or> (\<exists>kw \<in> set (entryKeywords k). includesStr kw w)
            \<or> includesStr (concat (map snd (details k))) w)
          (tokensWith isListedPunctuation (lc query)))"

text \<open>
  Claim C2 as amended: the punctuation is the class of the source, and the tokens
  are looked for in the lower-cased title, in a lower-cased keyword, or in the
  lower-cased string of the detail values joined by single spaces.
\<close>

definition relevant :: "(jsstring \<Rightarrow> jsstring) \<Rightarrow> jsstring \<Rightarrow> KnowledgeEntry \<Rightarrow> bool" where
  "relevant lc query k \<longleftrightarrow>
     (title k \<noteq> [] \<and> includesStr (lc query) (lc (title k)))
     \<or> (\<exists>kw \<in> set (entryKeywords k). lc (trim kw) \<noteq> [] \<and> includesStr (lc query) (lc (trim kw)))
     \<or> 2 \<le> length (filter (\<lambda>w.
            includesStr (lc (title k)) w
            \<or> (\<exists>kw \<in> set (entryKeywords k). includesStr (lc kw) w)
            \<or> includesStr (lc (join [32] (map snd (details k)))) w)
          (tokensWith isQueryPunctuation (lc query)))"


section \<open>The AI module: the system prompt\<close>

text \<open>
  \<open>getAllKnowledgeSummary\<close>: the titles of all entries by category, the categories
  in the order of their first entry.
\<close>

definition pushTitle :: "(jsstring \<times> jsstring list) list \<Rightarrow> KnowledgeEntry \<Rightarrow>
    (jsstring \<times> jsstring list) list" where
  "pushTitle byCategory k =
     (let cat = categoryName (category k);
          byCategory' = (if map_of byCategory cat = None then byCategory @ [(cat, [])] else byCategory)
      in map (\<lambda>(c, titles). if c = cat then (c, titles @ [title k]) else (c, titles)) byCategory')"

definition getAllKnowledgeSummary :: "Store \<Rightarrow> jsstring" where
  "getAllKnowledgeSummary store =
     (let allKnowledge = knowledge store @ externalKnowledge store
      in if allKnowledge = [] then []
         else indexHeader @
              concat (map (\<lambda>(cat, titles). cat @ ascii '': '' @ join titleSeparator titles @ [10])
                        (foldl pushTitle [] allKnowledge)))"

text \<open>
  \<open>formatKnowledgeDetails\<close>. \<open>CATEGORY_FIELDS\<close> is the parameter \<open>fieldsOf\<close>: for a
  category, the keys and labels of its fieldsOf, or nothing for a category the table
  does not have.
\<close>

type_synonym categoryFields = "category \<Rightarrow> (jsstring \<times> jsstring) list option"

definition formatKnowledgeDetails :: "categoryFields \<Rightarrow> KnowledgeEntry \<Rightarrow> jsstring" where
  "formatKnowledgeDetails fieldsOf entry =
     (case fieldsOf (category entry) of
        None \<Rightarrow> join [10] (filter (\<lambda>v. v \<noteq> []) (map snd (details entry)))
      | Some fs \<Rightarrow>
          join [10]
            (concat (map (\<lambda>(key, label).
               (case map_of (details entry) key of
                  None \<Rightarrow> []
                | Some v \<Rightarrow> if v \<noteq> [] \<and> trim v \<noteq> [] then [label @ labelColon @ v] else []))
             fs)))"

definition maxTotalChars :: nat where
  "maxTotalChars = 50000"

text \<open>
  The two \<open>forEach\<close> loops over the matched entries; their state is the prompt and
  \<open>usedChars\<close>.
\<close>

definition fullDetailText :: "categoryFields \<Rightarrow> KnowledgeEntry \<Rightarrow> jsstring" where
  "fullDetailText fieldsOf k =
     fullBlockOpen @ categoryName (category k) @ fullBlockClose @ title k @ fullBlockColon @
     formatKnowledgeDetails fieldsOf k @ [10]"

definition summaryText :: "categoryFields \<Rightarrow> KnowledgeEntry \<Rightarrow> jsstring" where
  "summaryText fieldsOf k =
     (let detailsText = formatKnowledgeDetails fieldsOf k;
          summary = (if length detailsText > 200 then take 200 detailsText @ ascii ''...''
                     else detailsText)
      in summaryBullet @ categoryName (category k) @ ascii '' - '' @ title k @ ascii '': '' @
         map (\<lambda>c. if c = 10 then 32 else c) summary @ [10])"

definition appendWithinBudget :: "jsstring \<times> nat \<Rightarrow> jsstring \<Rightarrow> jsstring \<times> nat" where
  "appendWithinBudget st entryText =
     (let prompt = fst st; usedChars = snd st
      in if usedChars + length entryText < maxTotalChars
         then (prompt @ entryText, usedChars + length entryText)
         else st)"

definition knowledgeSection :: "categoryFields \<Rightarrow> KnowledgeEntry list \<Rightarrow> jsstring \<Rightarrow> jsstring" where
  "knowledgeSection fieldsOf matched prompt =
     (if matched = [] then prompt
      else
        (let fullDetailEntries = take 10 matched;
             summaryEntries = take 20 (drop 10 matched);
             st1 = foldl (\<lambda>st k. appendWithinBudget st (fullDetailText fieldsOf k))
                     (prompt @ relatedHeader, 0) fullDetailEntries;
             st2 = (if summaryEntries \<noteq> [] \<and> snd st1 < maxTotalChars - 2000
                    then foldl (\<lambda>st k. appendWithinBudget st (summaryText fieldsOf k))
                           (fst st1 @ summaryHeader, snd st1) summaryEntries
                    else st1)
         in if length matched > 30
            then fst st2 @ trailerOpen @ numberToString (length matched - 30) @ trailerClose
            else fst st2))"

text \<open>
  \<open>currentContent.replace(/<[^>]*>/g, '')\<close>: a tag runs from \<open><\<close> to the next \<open>>\<close>;
  a \<open><\<close> with no \<open>>\<close> after it stays.
\<close>

function stripTags :: "jsstring \<Rightarrow> jsstring" where
  "stripTags [] = []"
| "stripTags (c # cs) =
     (if c = 60 \<and> 62 \<in> set cs
      then stripTags (drop 1 (dropWhile (\<lambda>x. x \<noteq> 62) cs))
      else c # stripTags cs)"
  by pat_completeness auto
termination
  by (relation "measure length")
     (auto simp: less_Suc_eq_le intro: le_trans[OF diff_le_self length_dropWhile_le])

definition documentSection :: "jsstring option \<Rightarrow> jsstring \<Rightarrow> jsstring" where
  "documentSection currentContent prompt =
     (case currentContent of
        None \<Rightarrow> prompt
      | Some cc \<Rightarrow>
          if cc = [] then prompt
          else (let plainText = trim (stripTags cc)
                in if length plainText > 0
                   then prompt @ documentHeader @ take 3000 plainText
                   else prompt))"

definition buildSystemPrompt :: "(jsstring \<Rightarrow> jsstring) \<Rightarrow> categoryFields \<Rightarrow> Store \<Rightarrow>
    (jsstring \<times> jsstring) list \<Rightarrow> AISettings \<Rightarrow> jsstring option \<Rightarrow> jsstring" where
  "buildSystemPrompt lc fieldsOf store msgs settings currentContent =
     (let lastUserMsg = (case msgs of [] \<Rightarrow> [] | _ \<Rightarrow> snd (last msgs));
          matched = getMatchedKnowledge lc store lastUserMsg;
          knowledgeSummary = getAllKnowledgeSummary store;
          p0 = (if systemPrompt settings \<noteq> [] then systemPrompt settings else defaultSystemPrompt)
               @ knowledgeNote;
          p1 = (if knowledgeSummary \<noteq> [] then p0 @ [10, 10] @ knowledgeSummary else p0)
      in documentSection currentContent (knowledgeSection fieldsOf matched p1))"

text \<open>
  The end of \<open>sendToAI\<close>: what the call resolves to, or the error it rejects with,
  from the outcome of \<open>fetch\<close>.
\<close>

definition completionResult :: "jserror + response \<Rightarrow> jserror + json" where
  "completionResult outcome =
     (case outcome of
        Inl e \<Rightarrow> Inl e
      | Inr res \<Rightarrow>
          if \<not> ok res then Inl (Error (apiErrorPrefix @ numberToString (status res)))
          else (case jsonBody res of
                  Inl e \<Rightarrow> Inl e
                | Inr data \<Rightarrow>
                    (case messageContent data of
                       Inl e \<Rightarrow> Inl e
                     | Inr c \<Rightarrow> Inr (orElse c (JStr noResponse)))))"

definition chatRequest :: "(jsstring \<Rightarrow> jsstring) \<Rightarrow> categoryFields \<Rightarrow> Store \<Rightarrow>
    (jsstring \<times> jsstring) list \<Rightarrow> AISettings \<Rightarrow> jsstring option \<Rightarrow> request" where
  "chatRequest lc fieldsOf store msgs settings currentContent =
     \<lparr>url = apiUrl settings, authorization = bearer settings,
      requestModel = aiModel settings,
      requestMessages =
        (ascii ''system'', buildSystemPrompt lc fieldsOf store msgs settings currentContent) # msgs\<rparr>"

definition sendToAI :: "(jsstring \<Rightarrow> jsstring) \<Rightarrow> categoryFields \<Rightarrow> 'w fetch \<Rightarrow> Store \<Rightarrow>
    (jsstring \<times> jsstring) list \<Rightarrow> AISettings \<Rightarrow> jsstring option \<Rightarrow> 'w \<Rightarrow> (jserror + json) \<times> 'w" where
  "sendToAI lc fieldsOf fetch store msgs settings currentContent w =
     (let reply = fetch (chatRequest lc fieldsOf store msgs settings currentContent) w
      in (completionResult (fst reply), snd reply))"

text \<open>
  What the prompt shows of the matched entries, for claim C3: the texts that pass the
  budget test, in order, starting from \<open>used\<close> characters; the full-detail blocks of
  the first ten entries; the characters they use; whether the summaries are
  attempted; the summary lines of the entries 11 to 30; the trailer.
\<close>

fun keptWithin :: "nat \<Rightarrow> jsstring list \<Rightarrow> jsstring list" where
  "keptWithin used [] = []"
| "keptWithin used (t # ts) =
     (if used + length t < maxTotalChars
      then t # keptWithin (used + length t) ts
      else keptWithin used ts)"

definition fullBlocks :: "categoryFields \<Rightarrow> KnowledgeEntry list \<Rightarrow> jsstring list" where
  "fullBlocks fieldsOf matched = keptWithin 0 (map (fullDetailText fieldsOf) (take 10 matched))"

definition usedByFull :: "categoryFields \<Rightarrow> KnowledgeEntry list \<Rightarrow> nat" where
  "usedByFull fieldsOf matched = sum_list (map length (fullBlocks fieldsOf matched))"

definition summariesAttempted :: "categoryFields \<Rightarrow> KnowledgeEntry list \<Rightarrow> bool" where
  "summariesAttempted fieldsOf matched \<longleftrightarrow>
     10 < length matched \<and> 2000 < maxTotalChars - usedByFull fieldsOf matched"

definition summaryLines :: "categoryFields \<Rightarrow> KnowledgeEntry list \<Rightarrow> jsstring list" where
  "summaryLines fieldsOf matched =
     (if summariesAttempted fieldsOf matched
      then keptWithin (usedByFull fieldsOf matched)
             (map (summaryText fieldsOf) (take 20 (drop 10 matched)))
      else [])"

definition trailer :: "KnowledgeEntry list \<Rightarrow> jsstring" where
  "trailer matched =
     (if 30 < length matched
      then trailerOpen @ numberToString (length matched - 30) @ trailerClose
      else [])"


section \<open>LongTextImport.tsx: handleAnalyze\<close>

text \<open>
  What a handler does besides changing its own state: progress reports, requests,
  console errors, pauses in milliseconds, and the calls of the store. The store
  (\<open>addKnowledge\<close>, \<open>deleteKnowledge\<close>) is not among the sources; a handler's effect on
  it is the sequence of its calls.
\<close>

record NewEntry =
  newCategory :: "jsstring option"
  newTitle :: json
  newKeywords :: "json list"
  newDetails :: "(jsstring \<times> json) list"

datatype event =
  SetProgress nat nat
| Fetch request
| ConsoleError nat jserror
| Sleep nat
| AddKnowledge NewEntry
| DeleteKnowledge jsstring

text \<open>
  \<open>JSON.parse\<close> is the parameter \<open>parse\<close>: the value, or the \<open>SyntaxError\<close> it throws.
\<close>

type_synonym jsonParse = "jsstring \<Rightarrow> jserror + json"

definition extractionRequest :: "AISettings \<Rightarrow> TextChunk \<Rightarrow> request" where
  "extractionRequest settings chunk =
     (let chapterHint = (case chunkChapter chunk of
                           None \<Rightarrow> []
                         | Some ch \<Rightarrow> if ch = [] then [] else chapterHintPrefix @ ch)
      in \<lparr>url = apiUrl settings, authorization = bearer settings,
          requestModel = aiModel settings,
          requestMessages =
            [(ascii ''user'', extractPromptHead @ chapterHint @ extractPromptMid @ content chunk)]\<rparr>)"

text \<open>
  The body of the \<open>try\<close> block after \<open>fetch\<close>: the items of one chunk, or what is
  thrown. The status of the response is not read. A text that starts with a bracket
  parses to an array or not at all; the spread of anything else is given as the
  \<open>TypeError\<close> it would be.
\<close>

definition extractItems :: "jsonParse \<Rightarrow> jserror + response \<Rightarrow> jserror + json list" where
  "extractItems parse outcome =
     (case outcome of
        Inl e \<Rightarrow> Inl e
      | Inr res \<Rightarrow>
          (case jsonBody res of
             Inl e \<Rightarrow> Inl e
           | Inr data \<Rightarrow>
               (case messageContent data of
                  Inl e \<Rightarrow> Inl e
                | Inr c \<Rightarrow>
                    (case orElse c (JStr (ascii ''[]'')) of
                       JStr s \<Rightarrow>
                         (case delimited 91 93 s of
                            None \<Rightarrow> Inr []
                          | Some m \<Rightarrow>
                              (case parse m of
                                 Inl e \<Rightarrow> Inl e
                               | Inr (JArr items) \<Rightarrow> Inr items
                               | Inr _ \<Rightarrow> Inl (TypeError notIterableMessage)))
                     | _ \<Rightarrow> Inl (TypeError notAFunctionMessage)))))"

text \<open>
  The loop over the chunks. Its state is \<open>allResults\<close> and the effects so far; \<open>i\<close>
  is the index of the first remaining chunk.
\<close>

fun analyzeLoop :: "jsonParse \<Rightarrow> 'w fetch \<Rightarrow> AISettings \<Rightarrow> nat \<Rightarrow> nat \<Rightarrow> TextChunk list \<Rightarrow>
    json list \<times> event list \<Rightarrow> 'w \<Rightarrow> (json list \<times> event list) \<times> 'w" where
  "analyzeLoop parse fetch settings totalChunks i [] st w = (st, w)"
| "analyzeLoop parse fetch settings totalChunks i (chunk # rest) st w =
     (let req = extractionRequest settings chunk;
          reply = fetch req w;
          started = snd st @ [SetProgress (i + 1) totalChunks, Fetch req];
          st' = (case extractItems parse (fst reply) of
                   Inl e \<Rightarrow> (fst st, started @ [ConsoleError (i + 1) e])
                 | Inr items \<Rightarrow> (fst st @ items, started))
      in analyzeLoop parse fetch settings totalChunks (i + 1) rest
           (fst st', snd st' @ [Sleep 500]) (snd reply))"

record AnalyzeState =
  loading :: bool
  progress :: "nat \<times> nat"
  results :: "json list"
  analyzeError :: jsstring

definition handleAnalyze :: "jsonParse \<Rightarrow> 'w fetch \<Rightarrow> AISettings \<Rightarrow> jsstring \<Rightarrow> AnalyzeState \<Rightarrow> 'w \<Rightarrow>
    (AnalyzeState \<times> event list) \<times> 'w" where
  "handleAnalyze parse fetch settings text st w =
     (if trim text = [] then ((st, []), w)
      else if apiKey settings = [] then ((st\<lparr>analyzeError := configError\<rparr>, []), w)
      else
        (let chunks = splitText text 3000;
             finished = analyzeLoop parse fetch settings (length chunks) 0 chunks
                          ([], [SetProgress 0 (length chunks)]) w
         in ((st\<lparr>progress := (length chunks, length chunks), loading := False,
                  analyzeError := [], results := fst (fst finished)\<rparr>,
              snd (fst finished)), snd finished)))"

text \<open>
  For claim C7: the outcomes of a sequence of requests, each made in the world the
  previous one left; a request or parse failure, which is a rejected \<open>fetch\<close>, a
  response whose body \<open>res.json()\<close> rejects, or a reply whose bracketed text
  \<open>JSON.parse\<close> rejects; what one outcome adds to the results; the effects of one
  chunk.
\<close>

fun replies :: "'w fetch \<Rightarrow> request list \<Rightarrow> 'w \<Rightarrow> (jserror + response) list" where
  "replies fetch [] w = []"
| "replies fetch (req # reqs) w = fst (fetch req w) # replies fetch reqs (snd (fetch req w))"

definition requestOrParseFailure :: "jsonParse \<Rightarrow> jserror + response \<Rightarrow> bool" where
  "requestOrParseFailure parse outcome \<longleftrightarrow>
     (case outcome of
        Inl e \<Rightarrow> True
      | Inr res \<Rightarrow>
          (case jsonBody res of
             Inl e \<Rightarrow> True
           | Inr data \<Rightarrow>
               (case messageContent data of
                  Inl e \<Rightarrow> False
                | Inr c \<Rightarrow>
                    (case orElse c (JStr (ascii ''[]'')) of
                       JStr s \<Rightarrow>
                         (case delimited 91 93 s of
                            None \<Rightarrow> False
                          | Some m \<Rightarrow> (case parse m of Inl e \<Rightarrow> True | Inr v \<Rightarrow> False))
                     | _ \<Rightarrow> False))))"

definition contribution :: "jsonParse \<Rightarrow> jserror + response \<Rightarrow> json list" where
  "contribution parse outcome = (case extractItems parse outcome of Inl e \<Rightarrow> [] | Inr items \<Rightarrow> items)"

definition chunkEffects :: "jsonParse \<Rightarrow> nat \<Rightarrow> nat \<times> request \<times> (jserror + response) \<Rightarrow> event list" where
  "chunkEffects parse totalChunks x =
     (case x of (i, req, outcome) \<Rightarrow>
        [SetProgress (i + 1) totalChunks, Fetch req] @
        (case extractItems parse outcome of Inl e \<Rightarrow> [ConsoleError (i + 1) e] | Inr items \<Rightarrow> []) @
        [Sleep 500])"

fun isFetch :: "event \<Rightarrow> bool" where
  "isFetch (Fetch req) = True"
| "isFetch e = False"

fun isSleep :: "event \<Rightarrow> bool" where
  "isSleep (Sleep ms) = True"
| "isSleep e = False"

fun touchesStore :: "event \<Rightarrow> bool" where
  "touchesStore (AddKnowledge entry) = True"
| "touchesStore (DeleteKnowledge i) = True"
| "touchesStore e = False"


section \<open>MergeDuplicates.tsx: handleMerge\<close>

text \<open>A value in a template literal.\<close>

definition templateOpt :: "jsstring option \<Rightarrow> jsstring" where
  "templateOpt v = (case v of None \<Rightarrow> ascii ''undefined'' | Some s \<Rightarrow> s)"

text \<open>
  The success message
  \<^verbatim>\<open>`... ${group.entries.length} ... "${parsed.title}"`\<close> is kept as the two values
  it shows, the number of entries and \<open>parsed.title\<close>; \<open>setMergeResult('')\<close> is
  \<open>NoMessage\<close>.
\<close>

datatype mergeMessage = NoMessage | MergedMessage nat "json option"

text \<open>
  \<open>allContent\<close>: the entries of the group, rendered. \<open>CATEGORY_FIELDS[entry.category]\<close>
  is \<open>undefined\<close> for a category the table lacks, and \<open>fields.map\<close> then throws.
\<close>

definition renderEntry :: "(jsstring \<times> jsstring) list \<Rightarrow> nat \<Rightarrow> KnowledgeEntry \<Rightarrow> jsstring" where
  "renderEntry fs i entry =
     (let detailLines = join [10] (filter (\<lambda>l. l \<noteq> [])
            (map (\<lambda>(key, label).
                    (case map_of (details entry) key of
                       None \<Rightarrow> []
                     | Some v \<Rightarrow> if v \<noteq> [] then label @ ascii '': '' @ v else []))
                 fs))
      in entryOpen @ numberToString (i + 1) @ ascii '': '' @ title entry @ entryKeywordsLabel @
         join (ascii '', '') (entryKeywords entry) @ [10] @ detailLines)"

fun renderEntries :: "categoryFields \<Rightarrow> nat \<Rightarrow> KnowledgeEntry list \<Rightarrow> jsstring list option" where
  "renderEntries fieldsOf i [] = Some []"
| "renderEntries fieldsOf i (entry # rest) =
     (case fieldsOf (category entry) of
        None \<Rightarrow> None
      | Some fs \<Rightarrow>
          (case renderEntries fieldsOf (i + 1) rest of
             None \<Rightarrow> None
           | Some rs \<Rightarrow> Some (renderEntry fs i entry # rs)))"

definition mapOfUndefinedMessage :: jsstring where
  "mapOfUndefinedMessage = ascii ''Cannot read properties of undefined (reading 'map')''"

definition mergeRequest :: "AISettings \<Rightarrow> DuplicateGroup \<Rightarrow> jsstring \<Rightarrow> request" where
  "mergeRequest settings grp allContent =
     \<lparr>url = apiUrl settings, authorization = bearer settings,
      requestModel = aiModel settings,
      requestMessages =
        [(ascii ''user'',
          mergePromptHead @ templateOpt (groupCategory grp) @
          mergePromptTopic @ templateOpt (baseName grp) @
          mergePromptCount @ numberToString (length (entries grp)) @
          mergePromptEntries @ allContent @ mergePromptTail)]\<rparr>"

text \<open>
  The \<open>try\<close> block after \<open>fetch\<close>: a merged entry with the success message, the
  format error, or what is thrown. \<open>createEmptyDetails\<close> (\<open>types.ts\<close>) is a parameter:
  the empty details of a category. A text that starts with a brace parses to an
  object or not at all; \<open>null\<close> in its place is given as the \<open>TypeError\<close> that reading
  \<open>parsed.content\<close> would throw.
\<close>

definition rawContentNotAFunctionMessage :: jsstring where
  "rawContentNotAFunctionMessage = ascii ''rawContent.match is not a function''"

definition nullContentMessage :: jsstring where
  "nullContentMessage = ascii ''Cannot read properties of null (reading 'content')''"

datatype mergeOutcome = Merged NewEntry mergeMessage | BadFormat | Thrown jserror

definition mergedEntry :: "(jsstring option \<Rightarrow> (jsstring \<times> jsstring) list) \<Rightarrow> DuplicateGroup \<Rightarrow> json \<Rightarrow> NewEntry" where
  "mergedEntry createEmptyDetails grp parsed =
     (let template = map (\<lambda>(k, v). (k, JStr v)) (createEmptyDetails (groupCategory grp));
          mergedDetails =
            (case template of
               [] \<Rightarrow> []
             | (firstKey, v) # rest \<Rightarrow>
                 if firstKey \<noteq> []
                 then (firstKey, orElse (getProp (ascii ''content'') parsed) (JStr [])) # rest
                 else (firstKey, v) # rest)
      in \<lparr>newCategory = groupCategory grp,
          newTitle = orElse (getProp (ascii ''title'') parsed)
                       (JStr (templateOpt (baseName grp) @ mergedSuffix)),
          newKeywords = (case getProp (ascii ''keywords'') parsed of
                           Some (JArr ks) \<Rightarrow> ks
                         | _ \<Rightarrow> []),
          newDetails = mergedDetails\<rparr>)"

definition tryMerge :: "jsonParse \<Rightarrow> (jsstring option \<Rightarrow> (jsstring \<times> jsstring) list) \<Rightarrow> DuplicateGroup \<Rightarrow>
    jserror + response \<Rightarrow> mergeOutcome" where
  "tryMerge parse createEmptyDetails grp outcome =
     (case outcome of
        Inl e \<Rightarrow> Thrown e
      | Inr res \<Rightarrow>
          if \<not> ok res then Thrown (Error (mergeApiErrorPrefix @ numberToString (status res)))
          else
            (case jsonBody res of
               Inl e \<Rightarrow> Thrown e
             | Inr data \<Rightarrow>
                 (case messageContent data of
                    Inl e \<Rightarrow> Thrown e
                  | Inr c \<Rightarrow>
                      (case orElse c (JStr []) of
                         JStr rawContent \<Rightarrow>
                           (case delimited 123 125 rawContent of
                              None \<Rightarrow> BadFormat
                            | Some m \<Rightarrow>
                                (case parse m of
                                   Inl e \<Rightarrow> Thrown e
                                 | Inr parsed \<Rightarrow>
                                     if parsed = JNull
                                     then Thrown (TypeError nullContentMessage)
                                     else Merged (mergedEntry createEmptyDetails grp parsed)
                                            (MergedMessage (length (entries grp))
                                               (getProp (ascii ''title'') parsed))))
                       | _ \<Rightarrow> Thrown (TypeError rawContentNotAFunctionMessage)))))"

record MergeState =
  merging :: bool
  mergeError :: jsstring
  mergeResult :: mergeMessage
  selectedGroup :: "nat option"

text \<open>
  \<open>handleMerge\<close> gives the new state, its effects, and the exception that leaves it,
  if any. Everything thrown inside the \<open>try\<close> block is an \<open>Error\<close> and is caught.
\<close>

definition handleMerge :: "jsonParse \<Rightarrow> (jsstring option \<Rightarrow> (jsstring \<times> jsstring) list) \<Rightarrow> categoryFields \<Rightarrow>
    'w fetch \<Rightarrow> AISettings \<Rightarrow> bool \<Rightarrow> DuplicateGroup \<Rightarrow> MergeState \<Rightarrow> 'w \<Rightarrow>
    (MergeState \<times> event list \<times> jserror option) \<times> 'w" where
  "handleMerge parse createEmptyDetails fieldsOf fetch settings deleteOriginals grp st w =
     (if apiKey settings = [] then ((st\<lparr>mergeError := configError\<rparr>, [], None), w)
      else
        (let st1 = st\<lparr>merging := True, mergeError := [], mergeResult := NoMessage\<rparr>
         in case renderEntries fieldsOf 0 (entries grp) of
              None \<Rightarrow> ((st1, [], Some (TypeError mapOfUndefinedMessage)), w)
            | Some rendered \<Rightarrow>
                (let req = mergeRequest settings grp (join entrySeparator rendered);
                     reply = fetch req w
                 in (case tryMerge parse createEmptyDetails grp (fst reply) of
                       Merged entry message \<Rightarrow>
                         (st1\<lparr>mergeResult := message, selectedGroup := None, merging := False\<rparr>,
                          Fetch req # AddKnowledge entry #
                            (if deleteOriginals
                             then map (\<lambda>e. DeleteKnowledge (entryId e)) (entries grp)
                             else []),
                          None)
                     | BadFormat \<Rightarrow>
                         (st1\<lparr>mergeError := formatError, merging := False\<rparr>, [Fetch req], None)
                     | Thrown e \<Rightarrow>
                         (st1\<lparr>mergeError := mergeFailedPrefix @ errorMessage e, merging := False\<rparr>,
                          [Fetch req], None),
                     snd reply))))"

text \<open>
  For claims C8 and C10, in the words of the specification. A reply has no parseable
  JSON object when its content has no brace-delimited text or the parser rejects that
  text. The value at \<open>choices[0].message.content\<close> of a body is found by following the
  path; a step that is missing gives nothing.
\<close>

definition noParseableObject :: "jsonParse \<Rightarrow> jsstring \<Rightarrow> bool" where
  "noParseableObject parse rawContent \<longleftrightarrow>
     (case delimited 123 125 rawContent of
        None \<Rightarrow> True
      | Some m \<Rightarrow> (case parse m of Inl e \<Rightarrow> True | Inr v \<Rightarrow> False))"

definition contentAt :: "json \<Rightarrow> json option" where
  "contentAt data =
     Option.bind (Option.bind (Option.bind (getProp (ascii ''choices'') data) getFirst)
                    (getProp (ascii ''message'')))
       (getProp (ascii ''content''))"


section \<open>Example inputs\<close>

text \<open>
  Settings with an API key; a world that counts the requests, in which the first
  request fails in the network and every later one is answered with status 200 and
  a reply whose content holds the array \<open>[1]\<close>; a parser that knows the texts \<open>[1]\<close>,
  \<open>[]\<close> and \<open>{}\<close> only; and a reply body with the content \<open>c\<close>.
\<close>

definition exampleSettings :: AISettings where
  "exampleSettings =
     \<lparr>apiUrl = ascii ''https://api.example/v1/chat/completions'', apiKey = ascii ''sk-test'',
      aiModel = ascii ''model'', systemPrompt = []\<rparr>"

definition replyBody :: "json \<Rightarrow> json" where
  "replyBody c =
     JObj [(ascii ''choices'',
            JArr [JObj [(ascii ''message'', JObj [(ascii ''content'', c)])]])]"

definition exampleFetch :: "nat fetch" where
  "exampleFetch req w =
     (if w = 0 then Inl (TypeError (ascii ''Failed to fetch''))
      else Inr \<lparr>status = 200, jsonBody = Inr (replyBody (JStr (ascii ''Items: [1]'')))\<rparr>,
      w + 1)"

definition exampleParse :: jsonParse where
  "exampleParse s =
     (if s = ascii ''[1]'' then Inr (JArr [JNum 1])
      else if s = ascii ''[]'' then Inr (JArr [])
      else if s = ascii ''{}'' then Inr (JObj [])
      else Inl (SyntaxError (ascii ''Unexpected token'')))"

definition exampleState :: AnalyzeState where
  "exampleState = \<lparr>loading = False, progress = (0, 0), results = [], analyzeError = []\<rparr>"

text \<open>
  Two entries that form a duplicate group, a field table with one field for every
  category, empty details with that field, and a world that answers every request
  with the given response.
\<close>

definition exampleGroup :: DuplicateGroup where
  "exampleGroup =
     \<lparr>baseName = Some (ascii ''Li''), groupCategory = Some (categoryName Person),
      entries =
        [\<lparr>entryId = ascii ''1'', category = Person, title = ascii ''Li'',
          entryKeywords = [ascii ''hero''], details = [(ascii ''bio'', ascii ''tall'')]\<rparr>,
         \<lparr>entryId = ascii ''2'', category = Person, title = ascii ''Li (2)'',
          entryKeywords = [], details = [(ascii ''bio'', ascii ''brave'')]\<rparr>]\<rparr>"

definition exampleFields :: categoryFields where
  "exampleFields c = Some [(ascii ''bio'', ascii ''Bio'')]"

definition exampleEmptyDetails :: "jsstring option \<Rightarrow> (jsstring \<times> jsstring) list" where
  "exampleEmptyDetails c = [(ascii ''bio'', [])]"

definition always :: "response \<Rightarrow> nat fetch" where
  "always res req w = (Inr res, w + 1)"

definition exampleMergeState :: MergeState where
  "exampleMergeState = \<lparr>merging = False, mergeError = [], mergeResult = NoMessage, selectedGroup = Some 0\<rparr>"

section \<open>Title normalisation\<close>

lemma paren_not_ws: "isOpenParen c \<Longrightarrow> \<not> isWhiteSpace c" "isCloseParen c \<Longrightarrow> \<not> isWhiteSpace c"
  by (auto simp: isOpenParen_def isCloseParen_def isWhiteSpace_def)

lemma paren_not_digit: "isOpenParen c \<Longrightarrow> \<not> isDigit c" "isCloseParen c \<Longrightarrow> \<not> isDigit c"
  by (auto simp: isOpenParen_def isCloseParen_def isDigit_def)

lemma open_not_close: "isOpenParen c \<Longrightarrow> \<not> isCloseParen c"
  by (auto simp: isOpenParen_def isCloseParen_def)

lemma trimEnd_Cons:
  "trimEnd (c # cs) = (if list_all isWhiteSpace (c # cs) then [] else c # trimEnd cs)"
  by (auto simp: trimEnd_def dropWhile_append list_all_iff dropWhile_eq_Nil_conv)

lemma trimEnd_Nil [simp]: "trimEnd [] = []"
  by (simp add: trimEnd_def)

lemma trimEnd_append_ws: "list_all isWhiteSpace w \<Longrightarrow> trimEnd (s @ w) = trimEnd s"
  by (simp add: trimEnd_def dropWhile_append list_all_iff dropWhile_eq_Nil_conv)

lemma trimEnd_snoc: "\<not> isWhiteSpace c \<Longrightarrow> trimEnd (s @ [c]) = s @ [c]"
  by (simp add: trimEnd_def)

lemma dropWhile_ws_append: "list_all isWhiteSpace w \<Longrightarrow> dropWhile isWhiteSpace (w @ s) = dropWhile isWhiteSpace s"
  by (simp add: dropWhile_append list_all_iff dropWhile_eq_Nil_conv)

lemma trim_decomp:
  "\<exists>w1 w2. s = w1 @ trim s @ w2 \<and> list_all isWhiteSpace w1 \<and> list_all isWhiteSpace w2"
proof -
  let ?x = "dropWhile isWhiteSpace s"
  have 1: "s = takeWhile isWhiteSpace s @ ?x" by simp
  have 2: "?x = trimEnd ?x @ rev (takeWhile isWhiteSpace (rev ?x))"
    unfolding trimEnd_def by (metis rev_append rev_rev_ident takeWhile_dropWhile_id)
  have "s = takeWhile isWhiteSpace s @ trim s @ rev (takeWhile isWhiteSpace (rev ?x))"
    using 1 2 by (metis trim_def)
  moreover have "list_all isWhiteSpace (takeWhile isWhiteSpace s)"
    "list_all isWhiteSpace (rev (takeWhile isWhiteSpace (rev ?x)))"
    by (auto simp: list_all_iff dest: set_takeWhileD)
  ultimately show ?thesis by blast
qed

lemma enumeratorAt_shape: "enumeratorAt s \<longleftrightarrow> enumShape s"
proof
  assume a: "enumeratorAt s"
  then obtain c r where cr: "dropWhile isWhiteSpace s = c # r" and oc: "isOpenParen c"
    and ds: "takeWhile isDigit r \<noteq> []"
    and rest: "(case dropWhile isDigit r of [] \<Rightarrow> False | d # r' \<Rightarrow> isCloseParen d \<and> list_all isWhiteSpace r')"
    by (auto simp: enumeratorAt_def split: list.splits)
  from rest obtain d r' where dr: "dropWhile isDigit r = d # r'" and cd: "isCloseParen d" and w2: "list_all isWhiteSpace r'"
    by (auto split: list.splits)
  have s: "s = takeWhile isWhiteSpace s @ c # takeWhile isDigit r @ d # r'"
    using cr dr by (metis takeWhile_dropWhile_id)
  have "list_all isWhiteSpace (takeWhile isWhiteSpace s)" "list_all isDigit (takeWhile isDigit r)"
    by (auto simp: list_all_iff dest: set_takeWhileD)
  then show "enumShape s" unfolding enumShape_def using s oc ds cd w2 by blast
next
  assume "enumShape s"
  then obtain w1 p ds q w2 where s: "s = w1 @ p # ds @ q # w2" and w1: "list_all isWhiteSpace w1"
    and p: "isOpenParen p" and ds: "ds \<noteq> []" "list_all isDigit ds" and q: "isCloseParen q"
    and w2: "list_all isWhiteSpace w2"
    unfolding enumShape_def by blast
  have 1: "dropWhile isWhiteSpace s = p # ds @ q # w2"
    using s w1 p by (simp add: dropWhile_ws_append paren_not_ws)
  have 2: "takeWhile isDigit (ds @ q # w2) = ds" "dropWhile isDigit (ds @ q # w2) = q # w2"
    using ds q by (simp_all add: takeWhile_append dropWhile_append list_all_iff paren_not_digit)
  show "enumeratorAt s"
    unfolding enumeratorAt_def using 1 2 p ds q w2 by simp
qed

lemma trim_shape:
  assumes "list_all isWhiteSpace w1" "\<not> isWhiteSpace p" "\<not> isWhiteSpace q" "list_all isWhiteSpace w2"
  shows "trim (w1 @ p # m @ q # w2) = p # m @ [q]"
proof -
  have "dropWhile isWhiteSpace (w1 @ p # m @ q # w2) = p # m @ q # w2"
    using assms by (simp add: dropWhile_ws_append)
  moreover have "trimEnd (p # m @ q # w2) = trimEnd ((p # m @ [q]) @ w2)" by simp
  moreover have "\<dots> = p # m @ [q]"
    using assms trimEnd_snoc[of q "p # m"] by (simp only: trimEnd_append_ws) simp
  ultimately show ?thesis by (simp add: trim_def)
qed

lemma enumSuffix_shape: "enumSuffix s \<longleftrightarrow> enumShape s"
proof
  assume "enumShape s"
  then obtain w1 p ds q w2 where s: "s = w1 @ p # ds @ q # w2" and w1: "list_all isWhiteSpace w1"
    and p: "isOpenParen p" and ds: "ds \<noteq> []" "list_all isDigit ds" and q: "isCloseParen q"
    and w2: "list_all isWhiteSpace w2"
    unfolding enumShape_def by blast
  have "trim s = p # ds @ [q]" unfolding s
    using trim_shape w1 w2 p q paren_not_ws by blast
  then show "enumSuffix s" using p ds q by (simp add: enumSuffix_def)
next
  assume a: "enumSuffix s"
  then obtain c r where t: "trim s = c # r" and c: "isOpenParen c" and r: "r \<noteq> []"
    and q: "isCloseParen (last r)" and ds: "butlast r \<noteq> []" "list_all isDigit (butlast r)"
    by (auto simp: enumSuffix_def split: list.splits)
  obtain w1 w2 where d: "s = w1 @ trim s @ w2" "list_all isWhiteSpace w1" "list_all isWhiteSpace w2"
    using trim_decomp by blast
  have "r = butlast r @ [last r]" using r by simp
  then have "s = w1 @ c # butlast r @ last r # w2" using d(1) t by simp
  then show "enumShape s" unfolding enumShape_def using d(2,3) c q ds by blast
qed

lemma first_outside_unique:
  assumes "list_all P v" "\<not> P p" "list_all P a" "\<not> P x" "v @ p # X = a @ x # Y"
  shows "v = a \<and> p = x \<and> X = Y"
  using assms
proof (induction v arbitrary: a)
  case Nil
  then show ?case by (cases a) auto
next
  case (Cons c v)
  then show ?case by (cases a) auto
qed

lemma enumeratorAt_append:
  assumes "enumSuffix s"
  shows "enumeratorAt (u @ s) \<longleftrightarrow> list_all isWhiteSpace u"
proof
  from assms obtain w1 p ds q w2 where s: "s = w1 @ p # ds @ q # w2" and w1: "list_all isWhiteSpace w1"
    and p: "isOpenParen p" and ds: "ds \<noteq> []" "list_all isDigit ds" and q: "isCloseParen q"
    and w2: "list_all isWhiteSpace w2"
    unfolding enumSuffix_shape enumShape_def by blast
  {
    assume "list_all isWhiteSpace u"
    then have "u @ s = (u @ w1) @ p # ds @ q # w2" "list_all isWhiteSpace (u @ w1)"
      using s w1 by simp_all
    then have "enumShape (u @ s)" unfolding enumShape_def using p ds q w2 by blast
    then show "enumeratorAt (u @ s)" by (simp add: enumeratorAt_shape)
  }
  {
    assume "enumeratorAt (u @ s)"
    then obtain v1 p' ds' q' v2 where us: "u @ s = v1 @ p' # ds' @ q' # v2" and v1: "list_all isWhiteSpace v1"
      and p': "isOpenParen p'" and ds': "list_all isDigit ds'" and q': "isCloseParen q'"
      and v2: "list_all isWhiteSpace v2"
      unfolding enumeratorAt_shape enumShape_def by blast
    show "list_all isWhiteSpace u"
    proof (rule ccontr)
      assume "\<not> list_all isWhiteSpace u"
      then have "\<exists>c\<in>set u. \<not> isWhiteSpace c" by (simp add: list_all_iff)
      then obtain a x b where u: "u = a @ x # b" "\<not> isWhiteSpace x" "\<forall>c\<in>set a. \<not> \<not> isWhiteSpace c"
        by (rule split_list_first_propE)
      have a: "list_all isWhiteSpace a" using u(3) by (simp add: list_all_iff)
      have eq: "v1 @ p' # (ds' @ q' # v2) = a @ x # (b @ s)" using us u(1) by simp
      have "v1 = a \<and> p' = x \<and> ds' @ q' # v2 = b @ s"
        using v1 paren_not_ws(1)[OF p'] a u(2) eq by (rule first_outside_unique)
      then have "p \<in> set (ds' @ q' # v2)" using s by simp
      then have "isDigit p \<or> isCloseParen p \<or> isWhiteSpace p"
        using ds' q' v2 by (auto simp: list_all_iff)
      then show False using p paren_not_digit(1) open_not_close paren_not_ws(1) by blast
    qed
  }
qed

lemma stripEnumerator_append:
  assumes "enumSuffix s"
  shows "stripEnumerator (T @ s) = trimEnd T"
proof (induction T)
  case Nil
  have "s \<noteq> []" using assms by (auto simp: enumSuffix_def trim_def)
  then obtain c cs where "s = c # cs" by (cases s) auto
  moreover have "enumeratorAt s" using enumeratorAt_append[OF assms, of "[]"] by simp
  ultimately show ?case by simp
next
  case (Cons c cs)
  show ?case
    using Cons.IH enumeratorAt_append[OF assms, of "c # cs"]
    by (simp add: trimEnd_Cons)
qed

lemma trimEnd_all_ws: "list_all isWhiteSpace s \<Longrightarrow> trimEnd s = []"
  by (simp add: trimEnd_def list_all_iff dropWhile_eq_Nil_conv)

lemma trimEnd_ws_imp: "list_all isWhiteSpace (trimEnd s) \<Longrightarrow> list_all isWhiteSpace s"
  by (induction s) (auto simp: trimEnd_Cons split: if_splits)

lemma dropWhile_all_ws: "list_all isWhiteSpace s \<Longrightarrow> dropWhile isWhiteSpace s = []"
  by (simp add: list_all_iff dropWhile_eq_Nil_conv)

lemma dropWhile_trimEnd: "dropWhile isWhiteSpace (trimEnd s) = trimEnd (dropWhile isWhiteSpace s)"
  by (induction s) (auto simp: trimEnd_Cons dropWhile_all_ws)

lemma trimEnd_idem: "trimEnd (trimEnd s) = trimEnd s"
  by (induction s) (auto simp: trimEnd_Cons dest: trimEnd_ws_imp)

lemma trim_trimEnd: "trim (trimEnd s) = trim s"
  by (simp add: trim_def dropWhile_trimEnd trimEnd_idem)

lemma trim_idem: "trim (trim s) = trim s"
proof -
  have "dropWhile isWhiteSpace (trim s) = trim s"
    unfolding trim_def dropWhile_trimEnd by simp
  then show ?thesis by (metis trim_def trim_trimEnd trimEnd_idem)
qed

lemma stripEnumerator_none: "\<not> endsWithEnumerator T \<Longrightarrow> stripEnumerator T = T"
  by (induction T) (auto simp: enumeratorAt_shape enumSuffix_shape)

text \<open>
  Claim C4, as amended. Appending an enumerator suffix to any title \<open>T\<close> normalises to
  the trimmed \<open>T\<close>; it is the normal form of \<open>T\<close> when \<open>T\<close> does not itself end with
  an enumerator, and normalisation is idempotent on every title whose normal form
  does not end with a further enumerator. The pattern removes one trailing
  enumerator only.
\<close>

theorem getBaseName_enumerator:
  assumes "enumSuffix s"
  shows "getBaseName (T @ s) = trim T
     \<and> (\<not> endsWithEnumerator T \<longrightarrow> getBaseName (T @ s) = getBaseName T)
     \<and> (\<not> endsWithEnumerator (getBaseName T) \<longrightarrow> getBaseName (getBaseName T) = getBaseName T)"
  using assms
  by (simp add: getBaseName_def stripEnumerator_append trim_trimEnd stripEnumerator_none trim_idem)

text \<open>The hypotheses hold for the title \<open>ab\<close> and the suffix \<open> (12)\<close>.\<close>

theorem getBaseName_enumerator_witness:
  "enumSuffix (ascii '' (12)'') \<and> getBaseName (ascii ''ab (12)'') = ascii ''ab''
   \<and> \<not> endsWithEnumerator (ascii ''ab'') \<and> getBaseName (ascii ''ab'') = ascii ''ab''"
  using getBaseName_enumerator [of "ascii '' (12)''" "ascii ''ab''"]
  by (simp add: ascii_def getBaseName_def enumeratorAt_def enumSuffix_def trim_def trimEnd_def isWhiteSpace_def isOpenParen_def isCloseParen_def isDigit_def)

text \<open>
  Claim C4 as stated fails on a title with two stacked enumerators: \<open>a(1)(2)\<close>
  normalises to \<open>a(1)\<close>, which normalises to \<open>a\<close>.
\<close>

theorem getBaseName_not_idempotent:
  "enumSuffix (ascii ''(2)'')
   \<and> getBaseName (ascii ''a(1)'' @ ascii ''(2)'') \<noteq> getBaseName (ascii ''a(1)'')
   \<and> getBaseName (getBaseName (ascii ''a(1)(2)'')) \<noteq> getBaseName (ascii ''a(1)(2)'')"
  by (simp add: ascii_def getBaseName_def enumSuffix_def enumeratorAt_def trim_def trimEnd_def isWhiteSpace_def isOpenParen_def isCloseParen_def isDigit_def)


section \<open>Duplicate groups\<close>

lemma groupKey_inj: "groupKey a = groupKey b \<longleftrightarrow> dupKey a = dupKey b"
  by (cases "category a"; cases "category b") (auto simp: groupKey_def dupKey_def ascii_def)

lemma pushEntry_closed:
  assumes G: "G = map (\<lambda>k. (k, filter (\<lambda>e. groupKey e = k) ks)) K"
    and K: "set K = groupKey ` set ks"
  shows "pushEntry G e =
     map (\<lambda>k. (k, filter (\<lambda>e. groupKey e = k) (ks @ [e])))
       (if groupKey e \<in> set K then K else K @ [groupKey e])"
proof -
  have none: "map_of G (groupKey e) = None \<longleftrightarrow> groupKey e \<notin> set K"
    unfolding G by (simp add: map_of_eq_None_iff image_image)
  show ?thesis
  proof (cases "groupKey e \<in> set K")
    case True
    then show ?thesis using none unfolding pushEntry_def G by (simp add: Let_def)
  next
    case False
    then have "filter (\<lambda>x. groupKey x = groupKey e) ks = []"
      using K by (simp add: filter_empty_conv) (metis imageI)
    then show ?thesis using none False unfolding pushEntry_def G by (simp add: Let_def)
  qed
qed

lemma groupEntries_closed:
  "groupEntries ks =
     map (\<lambda>k. (k, filter (\<lambda>e. groupKey e = k) ks)) (rev (remdups (rev (map groupKey ks))))"
proof (induction ks rule: rev_induct)
  case Nil
  show ?case by (simp add: groupEntries_def)
next
  case (snoc e ks)
  have "groupEntries (ks @ [e]) = pushEntry (groupEntries ks) e"
    by (simp add: groupEntries_def)
  also have "\<dots> = map (\<lambda>k. (k, filter (\<lambda>x. groupKey x = k) (ks @ [e])))
       (if groupKey e \<in> set (rev (remdups (rev (map groupKey ks))))
        then rev (remdups (rev (map groupKey ks)))
        else rev (remdups (rev (map groupKey ks))) @ [groupKey e])"
    by (rule pushEntry_closed[OF snoc.IH]) simp
  also have "\<dots> = map (\<lambda>k. (k, filter (\<lambda>x. groupKey x = k) (ks @ [e])))
       (rev (remdups (rev (map groupKey (ks @ [e])))))"
    by simp
  finally show ?case .
qed

lemma insertSorted_insort:
  fixes f :: "'a \<Rightarrow> int"
  shows "insertSorted (\<lambda>a b. f a - f b) x ys = insort_key f x ys"
  by (induction ys) auto

lemma sortWith_sort_key:
  fixes f :: "'a \<Rightarrow> int"
  shows "sortWith (\<lambda>a b. f a - f b) xs = sort_key f xs"
  by (induction xs) (simp_all add: sortWith_def insertSorted_insort)

lemma insort_lex:
  fixes f :: "'a \<Rightarrow> int"
  assumes "sorted_wrt (\<lambda>a b. f a < f b \<or> (f a = f b \<and> Q a b)) ys" "\<forall>y\<in>set ys. Q x y"
  shows "sorted_wrt (\<lambda>a b. f a < f b \<or> (f a = f b \<and> Q a b)) (insort_key f x ys)"
  using assms by (induction ys) (auto simp: set_insort_key)

lemma sort_key_lex:
  fixes f :: "'a \<Rightarrow> int"
  assumes "sorted_wrt Q xs"
  shows "sorted_wrt (\<lambda>a b. f a < f b \<or> (f a = f b \<and> Q a b)) (sort_key f xs)"
  using assms by (induction xs) (auto intro!: insort_lex)

lemma takeWhile_shorter: "\<exists>x\<in>set xs. \<not> P x \<Longrightarrow> length (takeWhile P xs) < length xs"
  by (induction xs) auto

lemma firstOcc_sorted:
  "sorted_wrt (\<lambda>k k'. length (takeWhile (\<lambda>e. g e \<noteq> k) ks) < length (takeWhile (\<lambda>e. g e \<noteq> k') ks))
     (rev (remdups (rev (map g ks))))"
proof (induction ks rule: rev_induct)
  case Nil
  show ?case by simp
next
  case (snoc e ks)
  let ?K = "rev (remdups (rev (map g ks)))"
  have setK: "set ?K = g ` set ks" by simp
  have old: "length (takeWhile (\<lambda>x. g x \<noteq> k) (ks @ [e])) = length (takeWhile (\<lambda>x. g x \<noteq> k) ks)
       \<and> length (takeWhile (\<lambda>x. g x \<noteq> k) ks) < length ks" if "k \<in> set ?K" for k
  proof -
    from that obtain x where x: "x \<in> set ks" "\<not> g x \<noteq> k" using setK by auto
    have "takeWhile (\<lambda>x. g x \<noteq> k) (ks @ [e]) = takeWhile (\<lambda>x. g x \<noteq> k) ks"
      using x by (rule takeWhile_append1)
    moreover have "length (takeWhile (\<lambda>x. g x \<noteq> k) ks) < length ks"
      using x by (intro takeWhile_shorter) blast
    ultimately show ?thesis by simp
  qed
  have 1: "sorted_wrt (\<lambda>k k'. length (takeWhile (\<lambda>x. g x \<noteq> k) (ks @ [e])) < length (takeWhile (\<lambda>x. g x \<noteq> k') (ks @ [e]))) ?K"
    by (rule sorted_wrt_mono_rel[OF _ snoc.IH]) (simp add: old)
  show ?case
  proof (cases "g e \<in> g ` set ks")
    case True
    then show ?thesis using 1 by simp
  next
    case False
    then have "\<And>x. x \<in> set ks \<Longrightarrow> g x \<noteq> g e" by (metis imageI)
    then have "takeWhile (\<lambda>x. g x \<noteq> g e) (ks @ [e]) = ks @ takeWhile (\<lambda>x. g x \<noteq> g e) [e]"
      by (rule takeWhile_append2)
    then have new: "length (takeWhile (\<lambda>x. g x \<noteq> g e) (ks @ [e])) = length ks"
      by simp
    show ?thesis using False 1 new old by (simp add: sorted_wrt_append)
  qed
qed

lemma firstSeen_groupKey:
  "firstSeen (dupKey e) ks = length (takeWhile (\<lambda>x. groupKey x \<noteq> groupKey e) ks)"
  by (simp add: firstSeen_def groupKey_inj)

lemma entries_makeGroup [simp]: "entries (makeGroup kv) = snd kv"
  by (simp add: makeGroup_def Let_def)

lemma findDuplicates_sort_key:
  "findDuplicates ks =
     sort_key (\<lambda>g. - int (length (entries g)))
       (map makeGroup (filter (\<lambda>kv. length (snd kv) > 1) (groupEntries ks)))"
proof -
  have "(\<lambda>a b. int (length (entries b)) - int (length (entries a)))
      = (\<lambda>a b :: DuplicateGroup. (- int (length (entries a))) - (- int (length (entries b))))"
    by (intro ext) simp
  then show ?thesis
    unfolding findDuplicates_def Let_def
    using sortWith_sort_key[of "\<lambda>g :: DuplicateGroup. - int (length (entries g))"] by simp
qed

lemma groupEntries_member:
  assumes "kv \<in> set (groupEntries ks)"
  shows "snd kv = filter (\<lambda>e. groupKey e = fst kv) ks \<and> snd kv \<noteq> []"
proof -
  from assms obtain k where k: "k \<in> groupKey ` set ks" "kv = (k, filter (\<lambda>e. groupKey e = k) ks)"
    unfolding groupEntries_closed by auto
  then show ?thesis by (auto simp: filter_empty_conv)
qed

lemma findDuplicates_member:
  assumes "g \<in> set (findDuplicates ks)"
  shows "\<exists>k. entries g = filter (\<lambda>e. groupKey e = k) ks \<and> 2 \<le> length (entries g)"
proof -
  from assms obtain kv where kv: "kv \<in> set (groupEntries ks)" "length (snd kv) > 1" "g = makeGroup kv"
    unfolding findDuplicates_sort_key by auto
  then show ?thesis using groupEntries_member[OF kv(1)] by auto
qed

lemma groupEntries_order:
  "sorted_wrt (\<lambda>a b. firstSeen (dupKey (hd (snd a))) ks < firstSeen (dupKey (hd (snd b))) ks)
     (groupEntries ks)"
proof -
  let ?K = "rev (remdups (rev (map groupKey ks)))"
  let ?F = "\<lambda>k. filter (\<lambda>e. groupKey e = k) ks"
  have hdk: "groupKey (hd (?F k)) = k" if "k \<in> set ?K" for k
  proof -
    from that have "?F k \<noteq> []" by (auto simp: filter_empty_conv)
    then have "hd (?F k) \<in> set (?F k)" by (rule hd_in_set)
    then show ?thesis by simp
  qed
  have "sorted_wrt (\<lambda>k k'. firstSeen (dupKey (hd (?F k))) ks < firstSeen (dupKey (hd (?F k'))) ks) ?K"
    by (rule sorted_wrt_mono_rel[OF _ firstOcc_sorted[of groupKey ks]])
       (simp add: firstSeen_groupKey hdk del: set_rev set_remdups)
  then show ?thesis
    unfolding groupEntries_closed by (simp add: sorted_wrt_map)
qed

text \<open>
  Claim C5. Every group returned by \<open>findDuplicates\<close> has at least two members, all
  of them input entries with one category and one normalised title; the groups are
  in order of non-increasing member count, and groups of equal count are in the order
  in which their first members occur in the input.
\<close>

theorem findDuplicates_groups:
  "(\<forall>g \<in> set (findDuplicates ks).
      2 \<le> length (entries g) \<and> set (entries g) \<subseteq> set ks \<and>
      (\<forall>a \<in> set (entries g). \<forall>b \<in> set (entries g).
         category a = category b \<and> getBaseName (title a) = getBaseName (title b)))
   \<and> sorted_wrt (\<lambda>a b. length (entries b) \<le> length (entries a)) (findDuplicates ks)
   \<and> sorted_wrt (groupBefore ks) (findDuplicates ks)"
proof (intro conjI ballI)
  fix g assume g: "g \<in> set (findDuplicates ks)"
  then obtain k where k: "entries g = filter (\<lambda>e. groupKey e = k) ks" "2 \<le> length (entries g)"
    using findDuplicates_member by blast
  show "2 \<le> length (entries g)" by (rule k(2))
  show "set (entries g) \<subseteq> set ks" unfolding k(1) by auto
  fix a b assume "a \<in> set (entries g)" "b \<in> set (entries g)"
  then have "groupKey a = groupKey b" unfolding k(1) by simp
  then have "dupKey a = dupKey b" by (simp add: groupKey_inj)
  then show "category a = category b" "getBaseName (title a) = getBaseName (title b)"
    by (simp_all add: dupKey_def)
next
  let ?pre = "map makeGroup (filter (\<lambda>kv. length (snd kv) > 1) (groupEntries ks))"
  let ?f = "\<lambda>g :: DuplicateGroup. - int (length (entries g))"
  let ?Q = "\<lambda>a b. firstSeen (dupKey (hd (entries a))) ks < firstSeen (dupKey (hd (entries b))) ks"
  have "sorted_wrt ?Q ?pre"
    using sorted_wrt_filter[OF groupEntries_order[of ks]] by (simp add: sorted_wrt_map)
  then have lex: "sorted_wrt (\<lambda>a b. ?f a < ?f b \<or> (?f a = ?f b \<and> ?Q a b)) (findDuplicates ks)"
    unfolding findDuplicates_sort_key by (rule sort_key_lex)
  show "sorted_wrt (groupBefore ks) (findDuplicates ks)"
    by (rule sorted_wrt_mono_rel[OF _ lex]) (auto simp: groupBefore_def)
  show "sorted_wrt (\<lambda>a b. length (entries b) \<le> length (entries a)) (findDuplicates ks)"
    by (rule sorted_wrt_mono_rel[OF _ lex]) auto
qed

lemmas js_eval = ascii_def trim_def trimEnd_def isWhiteSpace_def isDigit_def
  isOpenParen_def isCloseParen_def enumeratorAt_def getBaseName_def

text \<open>Three entries, two of them duplicates of each other: one group is returned.\<close>

theorem findDuplicates_groups_witness:
  "map entries (findDuplicates
     [\<lparr>entryId = ascii ''1'', category = Person, title = ascii ''Li'', entryKeywords = [], details = []\<rparr>,
      \<lparr>entryId = ascii ''2'', category = Plot, title = ascii ''Li'', entryKeywords = [], details = []\<rparr>,
      \<lparr>entryId = ascii ''3'', category = Person, title = ascii ''Li (2)'', entryKeywords = [], details = []\<rparr>])
   = [[\<lparr>entryId = ascii ''1'', category = Person, title = ascii ''Li'', entryKeywords = [], details = []\<rparr>,
       \<lparr>entryId = ascii ''3'', category = Person, title = ascii ''Li (2)'', entryKeywords = [], details = []\<rparr>]]
   \<and> getBaseName (ascii ''Li'') = getBaseName (ascii ''Li (2)'')"
  using findDuplicates_groups [of
     "[\<lparr>entryId = ascii ''1'', category = Person, title = ascii ''Li'', entryKeywords = [], details = []\<rparr>,
      \<lparr>entryId = ascii ''2'', category = Plot, title = ascii ''Li'', entryKeywords = [], details = []\<rparr>,
      \<lparr>entryId = ascii ''3'', category = Person, title = ascii ''Li (2)'', entryKeywords = [], details = []\<rparr>]"]
  by (simp add: findDuplicates_def groupEntries_def pushEntry_def groupKey_def makeGroup_def
      sortWith_def js_eval)


section \<open>The segmenter\<close>

lemma chapterPattern_plain:
  "c \<noteq> 31532 \<Longrightarrow> c \<noteq> 67 \<Longrightarrow> c \<noteq> 99 \<Longrightarrow> chapterPattern (c # cs) = None"
  by (simp add: chapterPattern_def ascii_def sameLetter_def)

lemma splitChapters_plain:
  "\<forall>c\<in>set s. c \<noteq> 31532 \<and> c \<noteq> 67 \<and> c \<noteq> 99 \<Longrightarrow> splitChapters acc s = [rev acc @ s]"
  by (induction s arbitrary: acc) (simp_all add: chapterPattern_plain)

lemma chapterTest_plain:
  "\<forall>c\<in>set s. c \<noteq> 31532 \<and> c \<noteq> 67 \<and> c \<noteq> 99 \<Longrightarrow> \<not> chapterTest s"
  by (induction s) (simp_all add: chapterPattern_plain)

lemma trim_id:
  assumes "s \<noteq> []" "\<not> isWhiteSpace (hd s)" "\<not> isWhiteSpace (last s)"
  shows "trim s = s"
proof -
  have "dropWhile isWhiteSpace s = s" using assms(1,2) by (cases s) auto
  moreover have "dropWhile isWhiteSpace (rev s) = rev s"
    using assms(1,3) by (cases "rev s") (auto simp: last_rev[symmetric] simp del: last_rev)
  ultimately show ?thesis by (simp add: trim_def trimEnd_def)
qed

lemma splitParagraphs_plain: "10 \<notin> set s \<Longrightarrow> splitParagraphs acc s = [rev acc @ s]"
  by (induction acc s rule: splitParagraphs.induct) auto

lemma splitParagraphs_break:
  assumes "10 \<notin> set s" "t \<noteq> []" "hd t \<noteq> 10"
  shows "splitParagraphs acc (s @ 10 # 10 # t) = (rev acc @ s) # splitParagraphs [] t"
  using assms(1)
proof (induction s arbitrary: acc)
  case Nil
  have "dropWhile (\<lambda>x. x = 10) t = t" using assms(2,3) by (cases t) auto
  then show ?case by simp
next
  case (Cons c s)
  then have c: "c \<noteq> 10" and s: "10 \<notin> set s" by auto
  obtain d u where du: "s @ 10 # 10 # t = d # u" by (cases s) auto
  have "splitParagraphs acc (c # d # u) = splitParagraphs (c # acc) (d # u)"
    using c by simp
  then show ?case using Cons.IH[OF s, of "c # acc"] du by simp
qed

lemma plain_replicate:
  "x \<noteq> 31532 \<and> x \<noteq> 67 \<and> x \<noteq> 99 \<Longrightarrow> \<forall>c\<in>set (replicate n x). c \<noteq> 31532 \<and> c \<noteq> 67 \<and> c \<noteq> 99"
  by simp

text \<open>
  Claim C6 at a failing input, with the default \<open>maxLen = 3000\<close>: a one-character
  paragraph followed by a paragraph of 3001 characters. The buffer holding the first
  paragraph is flushed when the second arrives, with no test of its length, and the
  chunk \<open>a\<close> of one character is emitted.
\<close>

theorem splitText_short_flush:
  "splitText (97 # 10 # 10 # replicate 3001 98) 3000 =
     [\<lparr>content = [97], chunkChapter = None\<rparr>,
      \<lparr>content = replicate 3001 98, chunkChapter = None\<rparr>]
   \<and> length (trim [97]) < 50"
proof -
  let ?T = "97 # 10 # 10 # replicate 3001 (98::nat)"
  have parts: "splitChapters [] ?T = [?T]"
    using splitChapters_plain[of ?T "[]"] by simp
  have trimT: "trim ?T = ?T"
    by (rule trim_id) (simp_all add: isWhiteSpace_def)
  have test: "\<not> chapterTest ?T"
    by (rule chapterTest_plain) simp
  have paras: "splitParagraphs [] ?T = [[97], replicate 3001 98]"
    using splitParagraphs_break[of "[97]" "replicate 3001 98" "[]"]
    by (simp add: splitParagraphs_plain)
  have t1: "trim [10, 10, 97] = [97]"
    by (simp add: trim_def trimEnd_def isWhiteSpace_def)
  have t2: "trim (replicate 3001 98) = replicate 3001 98"
    by (rule trim_id) (simp_all add: isWhiteSpace_def)
  have long: "splitLongPart 3000 [] [] ?T =
     [\<lparr>content = [97], chunkChapter = None\<rparr>,
      \<lparr>content = replicate 3001 98, chunkChapter = None\<rparr>]"
    unfolding splitLongPart_def paras
    by (simp add: paragraphStep_def chapterLabel_def t1 t2)
  have "partStep 3000 ([], []) ?T = (splitLongPart 3000 [] [] ?T, [])"
    unfolding partStep_def using test by (simp add: trimT)
  then have "splitText ?T 3000 = splitLongPart 3000 [] [] ?T"
    unfolding splitText_def parts by simp
  moreover have "length (trim [97]) < 50"
    by (simp add: trim_def trimEnd_def isWhiteSpace_def)
  ultimately show ?thesis using long by simp
qed

text \<open>
  Claim C1 at a failing input, with the default \<open>maxLen = 3000\<close>: three paragraphs of
  2000, 1500 and 1500 characters. The second chunk joins two paragraphs, neither of
  them longer than \<open>maxLen\<close>, and has 3002 characters: the test
  \<^verbatim>\<open>(current + p).length > maxLen\<close> leaves out the separator that the buffer then
  receives.
\<close>

theorem splitText_joined_overflow:
  "splitText (replicate 2000 97 @ 10 # 10 # replicate 1500 98 @ 10 # 10 # replicate 1500 100) 3000 =
     [\<lparr>content = replicate 2000 97, chunkChapter = None\<rparr>,
      \<lparr>content = replicate 1500 98 @ 10 # 10 # replicate 1500 100, chunkChapter = None\<rparr>]
   \<and> splitParagraphs [] (replicate 1500 98 @ 10 # 10 # replicate 1500 100) =
       [replicate 1500 98, replicate 1500 100]
   \<and> length (replicate 1500 98 @ 10 # 10 # replicate 1500 (100::nat)) = 3002"
proof -
  let ?A = "replicate 2000 (97::nat)"
  let ?B = "replicate 1500 (98::nat)"
  let ?D = "replicate 1500 (100::nat)"
  let ?T = "?A @ 10 # 10 # ?B @ 10 # 10 # ?D"
  have parts: "splitChapters [] ?T = [?T]"
    using splitChapters_plain[of ?T "[]"] by simp
  have trimT: "trim ?T = ?T"
    by (rule trim_id) (simp_all add: isWhiteSpace_def)
  have test: "\<not> chapterTest ?T"
    by (rule chapterTest_plain) simp
  have pBD: "splitParagraphs [] (?B @ 10 # 10 # ?D) = [?B, ?D]"
    using splitParagraphs_break[of ?B ?D "[]"] by (simp add: splitParagraphs_plain)
  have paras: "splitParagraphs [] ?T = [?A, ?B, ?D]"
    using splitParagraphs_break[of ?A "?B @ 10 # 10 # ?D" "[]"] pBD by simp
  have t1: "trim (10 # 10 # ?A) = ?A"
    by (simp add: trim_def isWhiteSpace_def) (simp add: trimEnd_def isWhiteSpace_def)
  have t2: "trim (?B @ 10 # 10 # ?D) = ?B @ 10 # 10 # ?D"
    by (rule trim_id) (simp_all add: isWhiteSpace_def)
  have long: "splitLongPart 3000 [] [] ?T =
     [\<lparr>content = ?A, chunkChapter = None\<rparr>,
      \<lparr>content = ?B @ 10 # 10 # ?D, chunkChapter = None\<rparr>]"
    unfolding splitLongPart_def paras
    by (simp add: paragraphStep_def chapterLabel_def t1 t2)
  have "partStep 3000 ([], []) ?T = (splitLongPart 3000 [] [] ?T, [])"
    unfolding partStep_def using test by (simp add: trimT)
  then have "splitText ?T 3000 = splitLongPart 3000 [] [] ?T"
    unfolding splitText_def parts by simp
  then show ?thesis using long pBD by simp
qed


section \<open>The relevance matcher\<close>

lemma runsOutside_dropWhile: "runsOutside sep (dropWhile sep s) = runsOutside sep s"
proof -
  have "dropWhile sep (dropWhile sep s) = dropWhile sep s"
    by (induction s) auto
  then show ?thesis
    by (subst (1 2) runsOutside.simps) simp
qed

lemma runsOutside_Nil [simp]: "runsOutside sep [] = []"
  by (subst runsOutside.simps) simp

lemma runsOutside_sep: "sep c \<Longrightarrow> runsOutside sep (c # cs) = runsOutside sep cs"
  using runsOutside_dropWhile[of sep "c # cs"] runsOutside_dropWhile[of sep cs] by simp

lemma runsOutside_run:
  assumes "\<forall>x\<in>set r. \<not> sep x" "\<not> sep a" "sep c"
  shows "runsOutside sep (a # r @ c # cs) = (a # r) # runsOutside sep cs"
proof -
  have 1: "takeWhile (\<lambda>x. \<not> sep x) (r @ c # cs) = r"
    using assms(1,3) by (simp add: takeWhile_append2)
  have 2: "dropWhile (\<lambda>x. \<not> sep x) (r @ c # cs) = c # cs"
    using assms(1,3) by (simp add: dropWhile_append2)
  have "runsOutside sep (a # r @ c # cs) = (a # r) # runsOutside sep (c # cs)"
    using assms(2) by (subst runsOutside.simps) (simp add: 1 2)
  then show ?thesis using assms(3) by (simp add: runsOutside_sep)
qed

lemma runsOutside_last_run:
  assumes "\<forall>x\<in>set r. \<not> sep x" "\<not> sep a"
  shows "runsOutside sep (a # r) = [a # r]"
proof -
  have 1: "takeWhile (\<lambda>x. \<not> sep x) r = r" "dropWhile (\<lambda>x. \<not> sep x) r = []"
    using assms(1) by simp_all
  show ?thesis using assms(2) by (subst runsOutside.simps) (simp add: 1)
qed

lemma splitWhitespace_runs:
  "\<forall>x\<in>set acc. \<not> isWhiteSpace x \<Longrightarrow>
   filter (\<lambda>w. w \<noteq> []) (splitWhitespace acc s) = runsOutside isWhiteSpace (rev acc @ s)"
proof (induction acc s rule: splitWhitespace.induct)
  case (1 acc)
  show ?case
  proof (cases "rev acc")
    case Nil
    then show ?thesis by simp
  next
    case (Cons a r)
    then have "\<forall>x\<in>set r. \<not> isWhiteSpace x" "\<not> isWhiteSpace a"
      using 1 by (metis list.set_intros(2) set_rev, metis list.set_intros(1) set_rev)
    then show ?thesis using Cons runsOutside_last_run[of r isWhiteSpace a] by simp
  qed
next
  case (2 acc c cs)
  show ?case
  proof (cases "isWhiteSpace c")
    case True
    have rest: "filter (\<lambda>w. w \<noteq> []) (splitWhitespace [] (dropWhile isWhiteSpace cs))
        = runsOutside isWhiteSpace cs"
      using 2(1)[OF True] by (simp add: runsOutside_dropWhile)
    show ?thesis
    proof (cases "rev acc")
      case Nil
      then show ?thesis using True rest by (simp add: runsOutside_sep)
    next
      case (Cons a r)
      then have "\<forall>x\<in>set r. \<not> isWhiteSpace x" "\<not> isWhiteSpace a"
        using 2(3) by (metis list.set_intros(2) set_rev, metis list.set_intros(1) set_rev)
      then have "runsOutside isWhiteSpace (a # r @ c # cs) = (a # r) # runsOutside isWhiteSpace cs"
        using True by (intro runsOutside_run) auto
      moreover have "acc \<noteq> []" using Cons by auto
      ultimately show ?thesis using True rest Cons by simp
    qed
  next
    case False
    then show ?thesis using 2(2)[OF False] 2(3) by simp
  qed
qed

lemma runsOutside_map:
  assumes "\<And>c. P (f c) = Q c" "\<And>c. \<not> Q c \<Longrightarrow> f c = c"
  shows "runsOutside P (map f s) = runsOutside Q s"
proof (induction s rule: length_induct)
  case (1 s)
  have dw: "dropWhile P (map f s) = map f (dropWhile Q s)"
    by (simp add: dropWhile_map comp_def assms(1))
  show ?case
  proof (cases "dropWhile Q s")
    case Nil
    have "runsOutside Q s = []"
      by (subst runsOutside.simps) (simp only: Nil list.case)
    moreover have "runsOutside P (map f s) = []"
      by (subst runsOutside.simps) (simp only: dw Nil list.map list.case)
    ultimately show ?thesis by simp
  next
    case (Cons c r)
    then have c: "\<not> Q c" by (metis hd_dropWhile list.sel(1) list.distinct(1))
    let ?r' = "dropWhile (\<lambda>x. \<not> Q x) r"
    have len: "length ?r' < length s"
      using Cons length_dropWhile_le[of Q s] length_dropWhile_le[of "\<lambda>x. \<not> Q x" r]
      by (metis le_imp_less_Suc length_Cons less_le_trans)
    have tw: "takeWhile (\<lambda>x. \<not> P x) (map f r) = takeWhile (\<lambda>x. \<not> Q x) r"
    proof -
      have "takeWhile (\<lambda>x. \<not> P x) (map f r) = map f (takeWhile (\<lambda>x. \<not> Q x) r)"
        by (simp add: takeWhile_map comp_def assms(1))
      also have "\<dots> = takeWhile (\<lambda>x. \<not> Q x) r"
        by (rule map_idI) (auto dest: set_takeWhileD intro: assms(2))
      finally show ?thesis .
    qed
    have dw2: "dropWhile (\<lambda>x. \<not> P x) (map f r) = map f ?r'"
      by (simp add: dropWhile_map comp_def assms(1))
    have "runsOutside P (map f s) = (f c # takeWhile (\<lambda>x. \<not> P x) (map f r)) # runsOutside P (map f ?r')"
      by (subst runsOutside.simps) (simp only: dw Cons dw2 list.map list.case)
    also have "\<dots> = (c # takeWhile (\<lambda>x. \<not> Q x) r) # runsOutside Q ?r'"
      using 1 len tw assms(2)[OF c] by simp
    also have "\<dots> = runsOutside Q s"
      by (subst (2) runsOutside.simps) (simp only: Cons list.case)
    finally show ?thesis .
  qed
qed

lemma queryWords_tokens: "queryWords t = tokensWith isQueryPunctuation t"
proof -
  have "filter (\<lambda>w. 2 \<le> length w) (splitWhitespace [] (replacePunctuation t))
      = filter (\<lambda>w. 2 \<le> length w) (filter (\<lambda>w. w \<noteq> []) (splitWhitespace [] (replacePunctuation t)))"
    by (simp add: conj_commute) (rule filter_cong, auto)
  also have "\<dots> = filter (\<lambda>w. 2 \<le> length w) (runsOutside isWhiteSpace (replacePunctuation t))"
    using splitWhitespace_runs[of "[]" "replacePunctuation t"] by simp
  also have "runsOutside isWhiteSpace (replacePunctuation t)
      = runsOutside (\<lambda>c. isWhiteSpace c \<or> isQueryPunctuation c) t"
    unfolding replacePunctuation_def
    by (rule runsOutside_map) (auto simp: isWhiteSpace_def)
  finally show ?thesis by (simp add: queryWords_def tokensWith_def)
qed

lemma matchesEntry_relevant:
  "matchesEntry lc (lc q) (queryWords (lc q)) k \<longleftrightarrow> relevant lc q k"
  unfolding matchesEntry_def relevant_def queryWords_tokens
  by (auto simp: list_ex_iff Let_def)

text \<open>
  Claim C2, as amended. \<open>getMatchedKnowledge\<close> keeps exactly the entries of the local
  list followed by the external list that are relevant: the non-empty lower-cased
  title occurs in the lower-cased query; or a keyword, trimmed and lower-cased, is
  non-empty and occurs in it; or at least two tokens of the query occur in the
  lower-cased title, in a lower-cased keyword, or in the lower-cased detail values
  joined by spaces. The tokens are the runs of at least two characters between
  whitespace and the punctuation class of the source.
\<close>

theorem getMatchedKnowledge_relevant:
  "getMatchedKnowledge lc store q = filter (relevant lc q) (knowledge store @ externalKnowledge store)"
proof -
  have "matchesEntry lc (lc q) (queryWords (lc q)) = relevant lc q"
    by (rule ext) (rule matchesEntry_relevant)
  then show ?thesis
    unfolding getMatchedKnowledge_def Let_def by (simp only:)
qed

text \<open>
  Two entries and the query \<open>sword lake\<close>: the first is kept by its two tokens, the
  second has one token only.
\<close>

theorem getMatchedKnowledge_relevant_witness:
  "getMatchedKnowledge asciiLower
     \<lparr>knowledge =
        [\<lparr>entryId = ascii ''1'', category = Person, title = ascii ''Dragon Sword'',
          entryKeywords = [], details = [(ascii ''note'', ascii ''Lake'')]\<rparr>,
         \<lparr>entryId = ascii ''2'', category = Plot, title = ascii ''Harbour'',
          entryKeywords = [ascii ''ship''], details = [(ascii ''note'', ascii ''a sword'')]\<rparr>],
      externalKnowledge = []\<rparr>
     (ascii ''sword lake'')
   = [\<lparr>entryId = ascii ''1'', category = Person, title = ascii ''Dragon Sword'',
       entryKeywords = [], details = [(ascii ''note'', ascii ''Lake'')]\<rparr>]
   \<and> tokensWith isQueryPunctuation (asciiLower (ascii ''sword lake'')) = [ascii ''sword'', ascii ''lake'']"
  unfolding getMatchedKnowledge_relevant
  by (simp add: relevant_def tokensWith_def runsOutside.simps asciiLower_def ascii_def
      isWhiteSpace_def isQueryPunctuation_def trim_def trimEnd_def)

text \<open>
  Claim C2 as stated fails where the match depends on case: the tokens \<open>sword\<close> and
  \<open>lake\<close> do not occur in the stored title \<open>Dragon Sword\<close> and detail \<open>Lake\<close>, but the
  source compares them with the lower-cased texts and keeps the entry.
\<close>

theorem getMatchedKnowledge_not_as_stated:
  "getMatchedKnowledge asciiLower
     \<lparr>knowledge =
        [\<lparr>entryId = ascii ''1'', category = Person, title = ascii ''Dragon Sword'',
          entryKeywords = [], details = [(ascii ''note'', ascii ''Lake'')]\<rparr>],
      externalKnowledge = []\<rparr>
     (ascii ''sword lake'')
   \<noteq> filter (relevantAsStated asciiLower (ascii ''sword lake''))
       [\<lparr>entryId = ascii ''1'', category = Person, title = ascii ''Dragon Sword'',
         entryKeywords = [], details = [(ascii ''note'', ascii ''Lake'')]\<rparr>]"
  by (simp add: getMatchedKnowledge_def matchesEntry_def queryWords_def replacePunctuation_def
      relevantAsStated_def tokensWith_def runsOutside.simps asciiLower_def ascii_def
      isWhiteSpace_def isQueryPunctuation_def isListedPunctuation_def trim_def trimEnd_def)


section \<open>The prompt budget\<close>

lemma keptWithin_subseq: "subseq (keptWithin u ts) ts"
  by (induction ts arbitrary: u) auto

lemma keptWithin_budget:
  "u < maxTotalChars \<Longrightarrow> u + sum_list (map length (keptWithin u ts)) < maxTotalChars"
proof (induction ts arbitrary: u)
  case Nil
  then show ?case by simp
next
  case (Cons a ts)
  show ?case
  proof (cases "u + length a < maxTotalChars")
    case True
    then show ?thesis using Cons.IH[of "u + length a"] by (simp add: add.assoc)
  next
    case False
    then show ?thesis using Cons.IH[OF Cons.prems] by simp
  qed
qed

lemma keptWithin_none:
  "\<forall>t\<in>set ts. maxTotalChars \<le> u + length t \<Longrightarrow> keptWithin u ts = []"
  by (induction ts) auto

lemma keptWithin_all:
  "u + sum_list (map length ts) < maxTotalChars \<Longrightarrow> keptWithin u ts = ts"
proof (induction ts arbitrary: u)
  case Nil
  then show ?case by simp
next
  case (Cons a ts)
  then have "u + length a + sum_list (map length ts) < maxTotalChars" by (simp add: add.assoc)
  then have "keptWithin (u + length a) ts = ts" by (rule Cons.IH)
  moreover have "u + length a < maxTotalChars" using Cons.prems by simp
  ultimately show ?case by simp
qed

lemma foldl_appendWithinBudget:
  "foldl (\<lambda>st k. appendWithinBudget st (f k)) (p, u) ks =
     (p @ concat (keptWithin u (map f ks)), u + sum_list (map length (keptWithin u (map f ks))))"
proof (induction ks arbitrary: p u)
  case Nil
  show ?case by simp
next
  case (Cons k ks)
  show ?case
  proof (cases "u + length (f k) < maxTotalChars")
    case True
    then have "appendWithinBudget (p, u) (f k) = (p @ f k, u + length (f k))"
      by (simp add: appendWithinBudget_def)
    then show ?thesis using True Cons.IH[of "p @ f k" "u + length (f k)"]
      by (simp add: add.assoc)
  next
    case False
    then have "appendWithinBudget (p, u) (f k) = (p, u)"
      by (simp add: appendWithinBudget_def)
    then show ?thesis using False Cons.IH[of p u] by simp
  qed
qed

lemma knowledgeSection_parts:
  assumes "matched \<noteq> []"
  shows "knowledgeSection fieldsOf matched prompt =
     prompt @ relatedHeader @ concat (fullBlocks fieldsOf matched) @
     (if summariesAttempted fieldsOf matched
      then summaryHeader @ concat (summaryLines fieldsOf matched) else []) @
     trailer matched"
proof -
  have ne: "take 20 (drop 10 matched) \<noteq> [] \<longleftrightarrow> 10 < length matched"
    by auto
  have lt: "usedByFull fieldsOf matched < maxTotalChars - 2000
      \<longleftrightarrow> 2000 < maxTotalChars - usedByFull fieldsOf matched"
    by (auto simp: maxTotalChars_def)
  let ?full = "foldl (\<lambda>st k. appendWithinBudget st (fullDetailText fieldsOf k))
                     (prompt @ relatedHeader, 0) (take 10 matched)"
  have full: "?full = (prompt @ relatedHeader @ concat (fullBlocks fieldsOf matched),
                       usedByFull fieldsOf matched)"
    unfolding foldl_appendWithinBudget by (simp add: fullBlocks_def usedByFull_def)
  let ?s = "foldl (\<lambda>st k. appendWithinBudget st (summaryText fieldsOf k))
              (fst ?full @ summaryHeader, snd ?full) (take 20 (drop 10 matched))"
  have summ: "fst ?s = prompt @ relatedHeader @ concat (fullBlocks fieldsOf matched) @ summaryHeader @
       concat (keptWithin (usedByFull fieldsOf matched)
                 (map (summaryText fieldsOf) (take 20 (drop 10 matched))))"
    unfolding foldl_appendWithinBudget by (simp add: fullBlocks_def usedByFull_def)
  have cond: "(take 20 (drop 10 matched) \<noteq> [] \<and> snd ?full < maxTotalChars - 2000)
      \<longleftrightarrow> summariesAttempted fieldsOf matched"
    unfolding full summariesAttempted_def using ne lt by simp
  have "knowledgeSection fieldsOf matched prompt =
      (if summariesAttempted fieldsOf matched then fst ?s else fst ?full) @ trailer matched"
    using assms unfolding knowledgeSection_def Let_def cond trailer_def by simp
  also have "(if summariesAttempted fieldsOf matched then fst ?s else fst ?full) =
      prompt @ relatedHeader @ concat (fullBlocks fieldsOf matched) @
      (if summariesAttempted fieldsOf matched
       then summaryHeader @ concat (summaryLines fieldsOf matched) else [])"
  proof (cases "summariesAttempted fieldsOf matched")
    case True
    then show ?thesis by (simp only: summ if_True summaryLines_def)
  next
    case False
    then show ?thesis by (simp only: full if_False fst_conv append_Nil2)
  qed
  finally show ?thesis by simp
qed

lemma numberToString_digit: "n < 10 \<Longrightarrow> numberToString n = [48 + n]"
  by (simp add: numberToString.simps)

text \<open>
  Claim C3, as amended. For a non-empty list of matched entries the prompt grows by
  the heading, the full-detail blocks that pass the budget test, the summary heading
  and the summary lines that pass it when summaries are attempted, and the trailer.
  The full-detail blocks are taken in order from the first ten entries and the
  summary lines from the entries 11 to 30, so there are at most 10 and at most 20
  of them and no later entry is shown; together they stay strictly under
  \<open>maxTotalChars\<close>; summary lines appear only if more than 2000 characters of the
  budget were left after the full-detail blocks; the trailer is there exactly when
  more than 30 entries matched, whatever the budget, and names their number less 30,
  which is 5 for 35 entries.
\<close>

theorem knowledgeSection_budget:
  assumes "matched \<noteq> []"
  shows "knowledgeSection fieldsOf matched prompt =
           prompt @ relatedHeader @ concat (fullBlocks fieldsOf matched) @
           (if summariesAttempted fieldsOf matched
            then summaryHeader @ concat (summaryLines fieldsOf matched) else []) @
           trailer matched
     \<and> subseq (fullBlocks fieldsOf matched) (map (fullDetailText fieldsOf) (take 10 matched))
     \<and> subseq (summaryLines fieldsOf matched)
          (map (summaryText fieldsOf) (take 20 (drop 10 matched)))
     \<and> length (fullBlocks fieldsOf matched) \<le> 10
     \<and> length (summaryLines fieldsOf matched) \<le> 20
     \<and> sum_list (map length (fullBlocks fieldsOf matched @ summaryLines fieldsOf matched))
          < maxTotalChars
     \<and> (summaryLines fieldsOf matched \<noteq> [] \<longrightarrow>
          2000 < maxTotalChars - usedByFull fieldsOf matched)
     \<and> (length matched \<le> 30 \<longrightarrow> trailer matched = [])
     \<and> (30 < length matched \<longrightarrow>
          trailer matched = trailerOpen @ numberToString (length matched - 30) @ trailerClose)
     \<and> (length matched = 35 \<longrightarrow> trailer matched = trailerOpen @ ascii ''5'' @ trailerClose)"
proof -
  have full: "subseq (fullBlocks fieldsOf matched) (map (fullDetailText fieldsOf) (take 10 matched))"
    unfolding fullBlocks_def by (rule keptWithin_subseq)
  have summ: "subseq (summaryLines fieldsOf matched)
      (map (summaryText fieldsOf) (take 20 (drop 10 matched)))"
    unfolding summaryLines_def by (simp add: keptWithin_subseq)
  have lf: "length (fullBlocks fieldsOf matched) \<le> 10"
    using list_emb_length[OF full] by simp
  have ls: "length (summaryLines fieldsOf matched) \<le> 20"
    using list_emb_length[OF summ] by simp
  have used: "usedByFull fieldsOf matched < maxTotalChars"
    using keptWithin_budget[of 0 "map (fullDetailText fieldsOf) (take 10 matched)"]
    by (simp add: usedByFull_def fullBlocks_def maxTotalChars_def)
  have total: "sum_list (map length (fullBlocks fieldsOf matched @ summaryLines fieldsOf matched))
      < maxTotalChars"
    using used keptWithin_budget[OF used, of "map (summaryText fieldsOf) (take 20 (drop 10 matched))"]
    by (simp add: summaryLines_def usedByFull_def [symmetric])
  have att: "summaryLines fieldsOf matched \<noteq> [] \<longrightarrow> 2000 < maxTotalChars - usedByFull fieldsOf matched"
    by (simp add: summaryLines_def summariesAttempted_def)
  have tr: "length matched = 35 \<longrightarrow> trailer matched = trailerOpen @ ascii ''5'' @ trailerClose"
    by (simp add: trailer_def numberToString_digit ascii_def)
  have tr0: "length matched \<le> 30 \<longrightarrow> trailer matched = []"
    by (simp add: trailer_def)
  have tr1: "30 < length matched \<longrightarrow>
      trailer matched = trailerOpen @ numberToString (length matched - 30) @ trailerClose"
    by (simp add: trailer_def)
  show ?thesis
    using knowledgeSection_parts[OF assms, of fieldsOf prompt] full summ lf ls total att tr tr0 tr1
    by blast
qed

lemmas prompt_texts = fullBlockOpen_def fullBlockClose_def fullBlockColon_def labelColon_def
  summaryBullet_def

lemma concat_replicate_length: "length (concat (replicate n x)) = n * length x"
  by (induction n) auto

lemma sum_list_replicate_length: "sum_list (map length (replicate n x)) = n * length x"
  by (induction n) auto

text \<open>
  Thirty-five small entries: ten full-detail blocks, twenty summary lines and the
  trailer with the number 5.
\<close>

theorem knowledgeSection_budget_witness:
  "knowledgeSection (\<lambda>c. Some [(ascii ''bio'', ascii ''Bio'')])
     (replicate 35 \<lparr>entryId = ascii ''1'', category = Person, title = ascii ''Li'',
                     entryKeywords = [], details = [(ascii ''bio'', ascii ''tall'')]\<rparr>)
     (ascii ''P'')
   = ascii ''P'' @ relatedHeader @
     concat (replicate 10 (fullBlockOpen @ categoryName Person @ fullBlockClose @ ascii ''Li'' @
                           fullBlockColon @ ascii ''Bio'' @ labelColon @ ascii ''tall'' @ [10])) @
     summaryHeader @
     concat (replicate 20 (summaryBullet @ categoryName Person @ ascii '' - Li: Bio'' @
                           labelColon @ ascii ''tall'' @ [10])) @
     trailerOpen @ ascii ''5'' @ trailerClose"
proof -
  let ?fs = "\<lambda>c :: category. Some [(ascii ''bio'', ascii ''Bio'')]"
  let ?e = "\<lparr>entryId = ascii ''1'', category = Person, title = ascii ''Li'',
             entryKeywords = [], details = [(ascii ''bio'', ascii ''tall'')]\<rparr>"
  have fmt: "formatKnowledgeDetails ?fs ?e = ascii ''Bio'' @ labelColon @ ascii ''tall''"
    by (simp add: formatKnowledgeDetails_def ascii_def trim_def trimEnd_def isWhiteSpace_def)
  have ft: "fullDetailText ?fs ?e = fullBlockOpen @ categoryName Person @ fullBlockClose @
      ascii ''Li'' @ fullBlockColon @ ascii ''Bio'' @ labelColon @ ascii ''tall'' @ [10]"
    by (simp add: fullDetailText_def fmt)
  have st: "summaryText ?fs ?e = summaryBullet @ categoryName Person @ ascii '' - Li: Bio'' @
      labelColon @ ascii ''tall'' @ [10]"
    by (simp add: summaryText_def fmt Let_def) (simp add: ascii_def labelColon_def)
  have lft: "length (fullDetailText ?fs ?e) = 18"
    unfolding ft by (simp add: prompt_texts ascii_def)
  have lst: "length (summaryText ?fs ?e) = 20"
    unfolding st by (simp add: prompt_texts ascii_def)
  have "keptWithin 0 (replicate 10 (fullDetailText ?fs ?e)) = replicate 10 (fullDetailText ?fs ?e)"
    by (rule keptWithin_all) (simp add: lft maxTotalChars_def sum_list_replicate)
  then have fb: "fullBlocks ?fs (replicate 35 ?e) = replicate 10 (fullDetailText ?fs ?e)"
    unfolding fullBlocks_def by simp
  have used: "usedByFull ?fs (replicate 35 ?e) = 180"
    by (simp add: usedByFull_def fb sum_list_replicate lft)
  have att: "summariesAttempted ?fs (replicate 35 ?e)"
    by (simp add: summariesAttempted_def used maxTotalChars_def)
  have "keptWithin 180 (replicate 20 (summaryText ?fs ?e)) = replicate 20 (summaryText ?fs ?e)"
    by (rule keptWithin_all) (simp add: lst maxTotalChars_def sum_list_replicate)
  then have sl: "summaryLines ?fs (replicate 35 ?e) = replicate 20 (summaryText ?fs ?e)"
    unfolding summaryLines_def by (simp add: att used)
  have n5: "numberToString 5 = ascii ''5''"
    by (simp add: numberToString_digit ascii_def)
  have "replicate 35 ?e \<noteq> []" by simp
  from knowledgeSection_budget[OF this, of ?fs "ascii ''P''"]
  have "knowledgeSection ?fs (replicate 35 ?e) (ascii ''P'') =
      ascii ''P'' @ relatedHeader @ concat (fullBlocks ?fs (replicate 35 ?e)) @
      (if summariesAttempted ?fs (replicate 35 ?e)
       then summaryHeader @ concat (summaryLines ?fs (replicate 35 ?e)) else []) @
      trailer (replicate 35 ?e)"
    by (rule conjunct1)
  then show ?thesis by (simp add: fb sl att ft st trailer_def n5)
qed

text \<open>
  Claim C3 as stated fails on thirty-five entries whose single detail has 50000
  characters: no full-detail block passes the budget test, so the output has none,
  not ten; it has the twenty summary lines and the trailer.
\<close>

theorem knowledgeSection_no_full_block:
  "length (replicate 35 \<lparr>entryId = ascii ''1'', category = Person, title = ascii ''Li'',
                          entryKeywords = [], details = [(ascii ''bio'', replicate 50000 97)]\<rparr>) = 35
   \<and> length (fullBlocks (\<lambda>c. Some [(ascii ''bio'', ascii ''Bio'')])
        (replicate 35 \<lparr>entryId = ascii ''1'', category = Person, title = ascii ''Li'',
                        entryKeywords = [], details = [(ascii ''bio'', replicate 50000 97)]\<rparr>)) \<noteq> 10
   \<and> knowledgeSection (\<lambda>c. Some [(ascii ''bio'', ascii ''Bio'')])
        (replicate 35 \<lparr>entryId = ascii ''1'', category = Person, title = ascii ''Li'',
                        entryKeywords = [], details = [(ascii ''bio'', replicate 50000 97)]\<rparr>)
        (ascii ''P'')
     = ascii ''P'' @ relatedHeader @ summaryHeader @
       concat (replicate 20 (summaryBullet @ categoryName Person @ ascii '' - Li: Bio'' @
                             labelColon @ replicate 196 97 @ ascii ''...'' @ [10])) @
       trailerOpen @ ascii ''5'' @ trailerClose"
proof -
  let ?fs = "\<lambda>c :: category. Some [(ascii ''bio'', ascii ''Bio'')]"
  let ?e = "\<lparr>entryId = ascii ''1'', category = Person, title = ascii ''Li'',
             entryKeywords = [], details = [(ascii ''bio'', replicate 50000 97)]\<rparr>"
  have tr: "trim (replicate 50000 97) = replicate 50000 97"
    by (rule trim_id) (simp_all add: isWhiteSpace_def)
  have fmt: "formatKnowledgeDetails ?fs ?e = ascii ''Bio'' @ labelColon @ replicate 50000 97"
    by (simp add: formatKnowledgeDetails_def tr)
  have lft: "length (fullDetailText ?fs ?e) = 50014"
    unfolding fullDetailText_def fmt by (simp add: prompt_texts ascii_def)
  have st: "summaryText ?fs ?e = summaryBullet @ categoryName Person @ ascii '' - Li: Bio'' @
      labelColon @ replicate 196 97 @ ascii ''...'' @ [10]"
    by (simp add: summaryText_def fmt Let_def) (simp add: ascii_def labelColon_def)
  have lst: "length (summaryText ?fs ?e) = 215"
    unfolding st by (simp add: prompt_texts ascii_def)
  have fb: "fullBlocks ?fs (replicate 35 ?e) = []"
    unfolding fullBlocks_def
    by (rule keptWithin_none) (simp add: lft maxTotalChars_def)
  have used: "usedByFull ?fs (replicate 35 ?e) = 0"
    by (simp add: usedByFull_def fb)
  have att: "summariesAttempted ?fs (replicate 35 ?e)"
    by (simp add: summariesAttempted_def used maxTotalChars_def)
  have "keptWithin 0 (replicate 20 (summaryText ?fs ?e)) = replicate 20 (summaryText ?fs ?e)"
    by (rule keptWithin_all) (simp add: lst maxTotalChars_def sum_list_replicate)
  then have sl: "summaryLines ?fs (replicate 35 ?e) = replicate 20 (summaryText ?fs ?e)"
    unfolding summaryLines_def by (simp add: att used)
  have n5: "numberToString 5 = ascii ''5''"
    by (simp add: numberToString_digit ascii_def)
  have "replicate 35 ?e \<noteq> []" by simp
  from knowledgeSection_parts[OF this, of ?fs "ascii ''P''"]
  have "knowledgeSection ?fs (replicate 35 ?e) (ascii ''P'') =
      ascii ''P'' @ relatedHeader @ summaryHeader @ concat (replicate 20 (summaryText ?fs ?e)) @
      trailerOpen @ ascii ''5'' @ trailerClose"
    by (simp add: fb sl att trailer_def n5)
  then show ?thesis using fb by (simp add: st)
qed


section \<open>Bulk extraction\<close>

lemma length_replies [simp]: "length (replies fetch reqs w) = length reqs"
  by (induction reqs arbitrary: w) auto

lemma upt_shift: "[i..<i + Suc n] = i # [Suc i..<Suc i + n]"
  by (subst upt_rec) simp

lemma analyzeLoop_closed:
  "fst (analyzeLoop parse fetch settings n i chunks (rs, log) w) =
     (rs @ concat (map (contribution parse)
                     (replies fetch (map (extractionRequest settings) chunks) w)),
      log @ concat (map (chunkEffects parse n)
                      (zip [i..<i + length chunks]
                         (zip (map (extractionRequest settings) chunks)
                              (replies fetch (map (extractionRequest settings) chunks) w)))))"
proof (induction chunks arbitrary: i rs log w)
  case Nil
  show ?case by simp
next
  case (Cons chunk rest)
  let ?req = "extractionRequest settings chunk"
  let ?out = "fst (fetch ?req w)"
  let ?w' = "snd (fetch ?req w)"
  have upt: "[i..<i + length (chunk # rest)] = i # [Suc i..<Suc i + length rest]"
    using upt_shift[of i "length rest"] by simp
  have reps: "replies fetch (map (extractionRequest settings) (chunk # rest)) w =
      ?out # replies fetch (map (extractionRequest settings) rest) ?w'"
    by simp
  show ?case
  proof (cases "extractItems parse ?out")
    case (Inl e)
    have ce: "chunkEffects parse n (i, ?req, ?out) =
        [SetProgress (Suc i) n, Fetch ?req, ConsoleError (Suc i) e, Sleep 500]"
      using Inl by (simp add: chunkEffects_def)
    have co: "contribution parse ?out = []"
      using Inl by (simp add: contribution_def)
    have "fst (analyzeLoop parse fetch settings n i (chunk # rest) (rs, log) w) =
        fst (analyzeLoop parse fetch settings n (Suc i) rest
              (rs, log @ [SetProgress (Suc i) n, Fetch ?req, ConsoleError (Suc i) e, Sleep 500]) ?w')"
      using Inl by (simp add: Let_def)
    then show ?thesis
      unfolding Cons.IH upt reps by (simp add: ce co del: upt_Suc)
  next
    case (Inr items)
    have ce: "chunkEffects parse n (i, ?req, ?out) =
        [SetProgress (Suc i) n, Fetch ?req, Sleep 500]"
      using Inr by (simp add: chunkEffects_def)
    have co: "contribution parse ?out = items"
      using Inr by (simp add: contribution_def)
    have "fst (analyzeLoop parse fetch settings n i (chunk # rest) (rs, log) w) =
        fst (analyzeLoop parse fetch settings n (Suc i) rest
              (rs @ items, log @ [SetProgress (Suc i) n, Fetch ?req, Sleep 500]) ?w')"
      using Inr by (simp add: Let_def)
    then show ?thesis
      unfolding Cons.IH upt reps by (simp add: ce co del: upt_Suc)
  qed
qed

lemma filter_chunkEffects:
  "filter isFetch (chunkEffects parse n (i, req, out)) = [Fetch req]"
  "filter isSleep (chunkEffects parse n (i, req, out)) = [Sleep 500]"
  "filter touchesStore (chunkEffects parse n (i, req, out)) = []"
  by (simp_all add: chunkEffects_def split: sum.splits)

lemma filter_concat_map:
  "filter P (concat (map g zs)) = concat (map (\<lambda>x. filter P (g x)) zs)"
  by (induction zs) auto

lemma zipped_requests:
  assumes "length outs = length reqs"
  shows "map (\<lambda>x. fst (snd x)) (zip [i..<i + length reqs] (zip reqs outs)) = reqs"
proof -
  have "map snd (zip [i..<i + length reqs] (zip reqs outs)) = zip reqs outs"
    using assms by (intro map_snd_zip) simp
  moreover have "map fst (zip reqs outs) = reqs"
    using assms by (intro map_fst_zip) simp
  ultimately have "map fst (map snd (zip [i..<i + length reqs] (zip reqs outs))) = reqs"
    by simp
  then show ?thesis by (simp add: comp_def)
qed

lemma filter_effects:
  assumes "length outs = length reqs"
  shows "filter isFetch (concat (map (chunkEffects parse n) (zip [i..<i + length reqs] (zip reqs outs))))
           = map Fetch reqs"
    and "filter isSleep (concat (map (chunkEffects parse n) (zip [i..<i + length reqs] (zip reqs outs))))
           = replicate (length reqs) (Sleep 500)"
    and "filter touchesStore (concat (map (chunkEffects parse n) (zip [i..<i + length reqs] (zip reqs outs))))
           = []"
proof -
  let ?zs = "zip [i..<i + length reqs] (zip reqs outs)"
  have f: "(\<lambda>x. filter isFetch (chunkEffects parse n x)) = (\<lambda>x. [Fetch (fst (snd x))])"
    by (rule ext) (simp add: chunkEffects_def split: prod.splits sum.splits)
  have sl: "(\<lambda>x. filter isSleep (chunkEffects parse n x)) = (\<lambda>x. [Sleep 500])"
    by (rule ext) (simp add: chunkEffects_def split: prod.splits sum.splits)
  have ts: "(\<lambda>x. filter touchesStore (chunkEffects parse n x)) = (\<lambda>x. [])"
    by (rule ext) (simp add: chunkEffects_def split: prod.splits sum.splits)
  have c1: "concat (map (\<lambda>x. [h x]) zs) = map h zs" for h :: "'x \<Rightarrow> 'y" and zs
    by (induction zs) auto
  have len: "length ?zs = length reqs" using assms by simp
  have "map (\<lambda>x. Fetch (fst (snd x))) ?zs = map Fetch (map (\<lambda>x. fst (snd x)) ?zs)"
    by (simp only: map_map comp_def)
  also have "\<dots> = map Fetch reqs"
    by (simp only: zipped_requests[OF assms, of i])
  finally have m: "map (\<lambda>x. Fetch (fst (snd x))) ?zs = map Fetch reqs" .
  have "filter isFetch (concat (map (chunkEffects parse n) ?zs)) =
      map (\<lambda>x. Fetch (fst (snd x))) ?zs"
    by (simp only: filter_concat_map f c1)
  then show "filter isFetch (concat (map (chunkEffects parse n) ?zs)) = map Fetch reqs"
    by (simp only: m)
  have "filter isSleep (concat (map (chunkEffects parse n) ?zs)) = map (\<lambda>x. Sleep 500) ?zs"
    by (simp only: filter_concat_map sl c1)
  then show "filter isSleep (concat (map (chunkEffects parse n) ?zs)) = replicate (length reqs) (Sleep 500)"
    by (simp only: map_replicate_const len)
  show "filter touchesStore (concat (map (chunkEffects parse n) ?zs)) = []"
    by (simp only: filter_concat_map ts) simp
qed

lemma failure_thrown:
  "requestOrParseFailure parse outcome \<Longrightarrow> \<exists>e. extractItems parse outcome = Inl e"
  by (auto simp: requestOrParseFailure_def extractItems_def
      split: sum.splits json.splits option.splits)

lemma failure_contribution:
  "requestOrParseFailure parse outcome \<Longrightarrow> contribution parse outcome = []"
  using failure_thrown[of parse outcome] by (auto simp: contribution_def)

lemma failure_kinds:
  "requestOrParseFailure parse (Inl e)"
  "jsonBody res = Inl e \<Longrightarrow> requestOrParseFailure parse (Inr res)"
  "jsonBody res = Inr data \<Longrightarrow> messageContent data = Inr c \<Longrightarrow>
   orElse c (JStr (ascii ''[]'')) = JStr s \<Longrightarrow> delimited 91 93 s = Some m \<Longrightarrow>
   parse m = Inl e \<Longrightarrow> requestOrParseFailure parse (Inr res)"
  by (simp_all add: requestOrParseFailure_def)

lemma concat_without:
  assumes "k < length xs" "f (xs ! k) = []"
  shows "concat (map f xs) = concat (map f (take k xs @ drop (Suc k) xs))"
proof -
  have "xs = take k xs @ xs ! k # drop (Suc k) xs"
    using assms(1) by (simp add: id_take_nth_drop[symmetric])
  then have "concat (map f xs) = concat (map f (take k xs @ xs ! k # drop (Suc k) xs))"
    by simp
  then show ?thesis using assms(2) by simp
qed

text \<open>
  Claim C7. \<open>handleAnalyze\<close>, for a text that is not blank and settings with an API
  key, reports the progress \<open>0\<close> of \<open>n\<close> and then, for every list of chunks, makes
  one request per chunk, in order, each in the world the previous one left, whatever
  the earlier chunks did. Its results are the items of the chunks one after the
  other; its effects are the initial progress report and then, chunk by chunk, the
  progress report, the request, the console error if the chunk threw, and a pause of
  500 ms: as many requests as chunks, in the order of the chunks, and as many pauses.
  A request or parse failure (\<open>fetch\<close> rejects, \<open>res.json()\<close> rejects, or \<open>JSON.parse\<close>
  rejects the bracketed text of the reply) is thrown inside the loop body and
  contributes no item; and when chunk \<open>k\<close> fails so, the results of the run are those
  of the same run with the reply of chunk \<open>k\<close> left out.
\<close>

theorem handleAnalyze_resilient:
  assumes "trim text \<noteq> []" and "apiKey settings \<noteq> []"
  shows "fst (analyzeLoop parse fetch settings (length chunks) 0 chunks ([], []) w) =
           (concat (map (contribution parse)
                      (replies fetch (map (extractionRequest settings) chunks) w)),
            concat (map (chunkEffects parse (length chunks))
                      (zip [0..<length chunks]
                         (zip (map (extractionRequest settings) chunks)
                              (replies fetch (map (extractionRequest settings) chunks) w)))))
     \<and> results (fst (fst (handleAnalyze parse fetch settings text st w))) =
           concat (map (contribution parse)
                     (replies fetch (map (extractionRequest settings) (splitText text 3000)) w))
     \<and> snd (fst (handleAnalyze parse fetch settings text st w)) =
           SetProgress 0 (length (splitText text 3000)) #
           concat (map (chunkEffects parse (length (splitText text 3000)))
                     (zip [0..<length (splitText text 3000)]
                        (zip (map (extractionRequest settings) (splitText text 3000))
                             (replies fetch (map (extractionRequest settings) (splitText text 3000)) w))))
     \<and> filter isFetch (snd (fst (handleAnalyze parse fetch settings text st w))) =
           map (\<lambda>chunk. Fetch (extractionRequest settings chunk)) (splitText text 3000)
     \<and> filter isSleep (snd (fst (handleAnalyze parse fetch settings text st w))) =
           replicate (length (splitText text 3000)) (Sleep 500)
     \<and> (\<forall>outcome. requestOrParseFailure parse outcome \<longrightarrow>
           contribution parse outcome = [] \<and> (\<exists>e. extractItems parse outcome = Inl e))
     \<and> (\<forall>k. k < length (splitText text 3000) \<and>
              requestOrParseFailure parse
                (replies fetch (map (extractionRequest settings) (splitText text 3000)) w ! k) \<longrightarrow>
           results (fst (fst (handleAnalyze parse fetch settings text st w))) =
             concat (map (contribution parse)
               (take k (replies fetch (map (extractionRequest settings) (splitText text 3000)) w) @
                drop (Suc k) (replies fetch (map (extractionRequest settings) (splitText text 3000)) w))))"
proof -
  let ?chunks = "splitText text 3000"
  let ?reqs = "map (extractionRequest settings) ?chunks"
  let ?outs = "replies fetch ?reqs w"
  let ?done = "analyzeLoop parse fetch settings (length ?chunks) 0 ?chunks
                 ([], [SetProgress 0 (length ?chunks)]) w"
  let ?run = "fst (handleAnalyze parse fetch settings text st w)"
  have run: "?run =
      (st\<lparr>progress := (length ?chunks, length ?chunks), loading := False,
          analyzeError := [], results := fst (fst ?done)\<rparr>, snd (fst ?done))"
    using assms by (simp add: handleAnalyze_def Let_def)
  have closed: "fst ?done =
      (concat (map (contribution parse) ?outs),
       SetProgress 0 (length ?chunks) #
       concat (map (chunkEffects parse (length ?chunks))
                 (zip [0..<length ?chunks] (zip ?reqs ?outs))))"
    using analyzeLoop_closed[of parse fetch settings "length ?chunks" 0 ?chunks "[]"
        "[SetProgress 0 (length ?chunks)]" w]
    by simp
  have len: "length ?outs = length ?reqs" by simp
  have res: "results (fst ?run) = concat (map (contribution parse) ?outs)"
    unfolding run using closed by simp
  have log: "snd ?run = SetProgress 0 (length ?chunks) #
       concat (map (chunkEffects parse (length ?chunks))
                 (zip [0..<length ?chunks] (zip ?reqs ?outs)))"
    unfolding run using closed by simp
  have f: "filter isFetch (snd ?run) =
      map (\<lambda>chunk. Fetch (extractionRequest settings chunk)) ?chunks"
    unfolding log using filter_effects(1)[OF len, of parse "length ?chunks" 0]
    by (simp add: comp_def)
  have s: "filter isSleep (snd ?run) = replicate (length ?chunks) (Sleep 500)"
    unfolding log using filter_effects(2)[OF len, of parse "length ?chunks" 0] by simp
  have any: "fst (analyzeLoop parse fetch settings (length chunks) 0 chunks ([], []) w) =
      (concat (map (contribution parse)
                 (replies fetch (map (extractionRequest settings) chunks) w)),
       concat (map (chunkEffects parse (length chunks))
                 (zip [0..<length chunks]
                    (zip (map (extractionRequest settings) chunks)
                         (replies fetch (map (extractionRequest settings) chunks) w)))))"
    using analyzeLoop_closed[of parse fetch settings "length chunks" 0 chunks "[]" "[]" w]
    by simp
  have fail: "\<forall>outcome. requestOrParseFailure parse outcome \<longrightarrow>
      contribution parse outcome = [] \<and> (\<exists>e. extractItems parse outcome = Inl e)"
    using failure_contribution failure_thrown by blast
  have others: "\<forall>k. k < length ?chunks \<and> requestOrParseFailure parse (?outs ! k) \<longrightarrow>
      results (fst ?run) =
        concat (map (contribution parse) (take k ?outs @ drop (Suc k) ?outs))"
  proof (intro allI impI)
    fix k assume k: "k < length ?chunks \<and> requestOrParseFailure parse (?outs ! k)"
    then have "k < length ?outs" by simp
    moreover have "contribution parse (?outs ! k) = []"
      using k by (simp add: failure_contribution)
    ultimately show "results (fst ?run) =
        concat (map (contribution parse) (take k ?outs @ drop (Suc k) ?outs))"
      unfolding res by (rule concat_without)
  qed
  show ?thesis
    using any res log f s fail others by (intro conjI)
qed

lemma splitText_two_paragraphs:
  "splitText (replicate 2000 97 @ 10 # 10 # replicate 1500 98) 3000 =
     [\<lparr>content = replicate 2000 97, chunkChapter = None\<rparr>,
      \<lparr>content = replicate 1500 98, chunkChapter = None\<rparr>]"
proof -
  let ?A = "replicate 2000 (97::nat)"
  let ?B = "replicate 1500 (98::nat)"
  let ?T = "?A @ 10 # 10 # ?B"
  have parts: "splitChapters [] ?T = [?T]"
    using splitChapters_plain[of ?T "[]"] by simp
  have trimT: "trim ?T = ?T"
    by (rule trim_id) (simp_all add: isWhiteSpace_def)
  have test: "\<not> chapterTest ?T"
    by (rule chapterTest_plain) simp
  have paras: "splitParagraphs [] ?T = [?A, ?B]"
    using splitParagraphs_break[of ?A ?B "[]"] by (simp add: splitParagraphs_plain)
  have t1: "trim (10 # 10 # ?A) = ?A"
    by (simp add: trim_def isWhiteSpace_def) (simp add: trimEnd_def isWhiteSpace_def)
  have t2: "trim ?B = ?B"
    by (rule trim_id) (simp_all add: isWhiteSpace_def)
  have long: "splitLongPart 3000 [] [] ?T =
     [\<lparr>content = ?A, chunkChapter = None\<rparr>, \<lparr>content = ?B, chunkChapter = None\<rparr>]"
    unfolding splitLongPart_def paras
    by (simp add: paragraphStep_def chapterLabel_def t1 t2)
  have "partStep 3000 ([], []) ?T = (splitLongPart 3000 [] [] ?T, [])"
    unfolding partStep_def using test by (simp add: trimT)
  then have "splitText ?T 3000 = splitLongPart 3000 [] [] ?T"
    unfolding splitText_def parts by simp
  then show ?thesis using long by simp
qed

text \<open>
  Two chunks; the request for the first fails in the network, the second is answered
  with one item: the run reports the progress, makes both requests, logs the failure
  of the first, pauses after each, and has that one item.
\<close>

theorem handleAnalyze_resilient_witness:
  "trim (replicate 2000 97 @ 10 # 10 # replicate 1500 98) \<noteq> []
   \<and> apiKey exampleSettings \<noteq> []
   \<and> requestOrParseFailure exampleParse (fst (exampleFetch (extractionRequest exampleSettings
         \<lparr>content = replicate 2000 97, chunkChapter = None\<rparr>) 0))
   \<and> results (fst (fst (handleAnalyze exampleParse exampleFetch exampleSettings
         (replicate 2000 97 @ 10 # 10 # replicate 1500 98) exampleState 0))) = [JNum 1]
   \<and> snd (fst (handleAnalyze exampleParse exampleFetch exampleSettings
         (replicate 2000 97 @ 10 # 10 # replicate 1500 98) exampleState 0))
       = [SetProgress 0 2,
          SetProgress 1 2,
          Fetch (extractionRequest exampleSettings \<lparr>content = replicate 2000 97, chunkChapter = None\<rparr>),
          ConsoleError 1 (TypeError (ascii ''Failed to fetch'')),
          Sleep 500,
          SetProgress 2 2,
          Fetch (extractionRequest exampleSettings \<lparr>content = replicate 1500 98, chunkChapter = None\<rparr>),
          Sleep 500]"
proof -
  let ?T = "replicate 2000 (97::nat) @ 10 # 10 # replicate 1500 98"
  have t: "trim ?T \<noteq> []"
    using trim_id[of ?T] by (simp add: isWhiteSpace_def)
  have k: "apiKey exampleSettings \<noteq> []"
    by (simp add: exampleSettings_def ascii_def)
  have o0: "fst (exampleFetch r 0) = Inl (TypeError (ascii ''Failed to fetch''))" for r
    by (simp add: exampleFetch_def)
  have first: "extractItems exampleParse (Inl (TypeError (ascii ''Failed to fetch'')))
      = Inl (TypeError (ascii ''Failed to fetch''))"
    by (simp add: extractItems_def)
  have fl: "requestOrParseFailure exampleParse (Inl (TypeError (ascii ''Failed to fetch'')))"
    by (simp add: requestOrParseFailure_def)
  have d: "delimited 91 93 (ascii ''Items: [1]'') = Some (ascii ''[1]'')"
    by (simp add: delimited_def ascii_def)
  have ne: "ascii ''Items: [1]'' \<noteq> []"
    by (simp add: ascii_def)
  have later: "extractItems exampleParse (fst (exampleFetch r (Suc 0))) = Inr [JNum 1]" for r
    by (simp add: extractItems_def exampleFetch_def replyBody_def messageContent_def
        optionalChain_def orElse_def d ne exampleParse_def)
  have w: "snd (exampleFetch r 0) = Suc 0" for r
    by (simp add: exampleFetch_def)
  show ?thesis
    using handleAnalyze_resilient[OF t k, of exampleParse exampleFetch "[]" 0 exampleState] t k fl
    unfolding splitText_two_paragraphs
    by (simp add: contribution_def chunkEffects_def o0 first later w numeral_2_eq_2)
qed


section \<open>Merging a group\<close>

lemma noParseableObject_tryMerge:
  assumes "ok res" "jsonBody res = Inr data" "messageContent data = Inr c"
    and "orElse c (JStr []) = JStr rawContent" "noParseableObject parse rawContent"
  shows "tryMerge parse ced grp (Inr res) = BadFormat
     \<or> (\<exists>e. tryMerge parse ced grp (Inr res) = Thrown e)"
  using assms
  by (auto simp: tryMerge_def noParseableObject_def split: option.splits sum.splits)

lemma error_texts_nonempty: "formatError \<noteq> []" "mergeFailedPrefix \<noteq> []" "configError \<noteq> []"
  by (simp_all add: formatError_def mergeFailedPrefix_def configError_def)

lemma handleMerge_no_key:
  "apiKey settings = [] \<Longrightarrow>
   handleMerge parse ced fieldsOf fetch settings del grp st w =
     ((st\<lparr>mergeError := configError\<rparr>, [], None), w)"
  by (simp add: handleMerge_def)

lemma handleMerge_not_merged:
  assumes "apiKey settings \<noteq> []"
    and "renderEntries fieldsOf 0 (entries grp) = Some rendered"
    and "tryMerge parse ced grp
           (fst (fetch (mergeRequest settings grp (join entrySeparator rendered)) w)) = BadFormat
       \<or> (\<exists>e. tryMerge parse ced grp
           (fst (fetch (mergeRequest settings grp (join entrySeparator rendered)) w)) = Thrown e)"
  shows "snd (snd (fst (handleMerge parse ced fieldsOf fetch settings del grp st w))) = None"
    and "fst (snd (fst (handleMerge parse ced fieldsOf fetch settings del grp st w))) =
           [Fetch (mergeRequest settings grp (join entrySeparator rendered))]"
    and "mergeError (fst (fst (handleMerge parse ced fieldsOf fetch settings del grp st w))) \<noteq> []"
    and "\<not> merging (fst (fst (handleMerge parse ced fieldsOf fetch settings del grp st w)))"
  using assms
  by (auto simp: handleMerge_def Let_def error_texts_nonempty)

lemma handleMerge_deletes:
  assumes "DeleteKnowledge i \<in> set (fst (snd (fst (handleMerge parse ced fieldsOf fetch settings del grp st w))))"
  shows "del \<and> (\<exists>entry. AddKnowledge entry \<in>
            set (fst (snd (fst (handleMerge parse ced fieldsOf fetch settings del grp st w)))))
     \<and> mergeError (fst (fst (handleMerge parse ced fieldsOf fetch settings del grp st w))) = []
     \<and> i \<in> entryId ` set (entries grp)"
  using assms
  by (auto simp: handleMerge_def Let_def split: if_splits option.splits mergeOutcome.splits)

text \<open>
  Claim C8. Without an API key \<open>handleMerge\<close> sets the configuration error and does
  nothing else: no request, no change of the store, the world as it was. With a key,
  when the reply is received with a success status and its content has no parseable
  JSON object, no exception leaves \<open>handleMerge\<close>, the only effect is the request, the
  store is not touched, and an error is shown: the format error when the content has
  no brace-delimited text, and the merge failure with the parser's message when
  \<open>JSON.parse\<close> rejects that text. An original entry is deleted only in a run that
  was asked to delete the originals and that added the merged entry and shows no
  error, and only entries of the group are deleted. (The entries of the group are
  rendered before the \<open>try\<close> block; the second part is about groups whose categories
  all have a field table, so that the request is made.)
\<close>

theorem handleMerge_failures:
  "(apiKey settings = [] \<longrightarrow>
      handleMerge parse ced fieldsOf fetch settings del grp st w =
        ((st\<lparr>mergeError := configError\<rparr>, [], None), w)
      \<and> configError \<noteq> [])
   \<and> (apiKey settings \<noteq> [] \<and> renderEntries fieldsOf 0 (entries grp) = Some rendered
       \<and> fst (fetch (mergeRequest settings grp (join entrySeparator rendered)) w) = Inr res
       \<and> ok res \<and> jsonBody res = Inr data \<and> messageContent data = Inr c
       \<and> orElse c (JStr []) = JStr rawContent \<and> noParseableObject parse rawContent \<longrightarrow>
         snd (snd (fst (handleMerge parse ced fieldsOf fetch settings del grp st w))) = None
       \<and> fst (snd (fst (handleMerge parse ced fieldsOf fetch settings del grp st w))) =
           [Fetch (mergeRequest settings grp (join entrySeparator rendered))]
       \<and> filter touchesStore
           (fst (snd (fst (handleMerge parse ced fieldsOf fetch settings del grp st w)))) = []
       \<and> mergeError (fst (fst (handleMerge parse ced fieldsOf fetch settings del grp st w))) \<noteq> []
       \<and> (delimited 123 125 rawContent = None \<longrightarrow>
            mergeError (fst (fst (handleMerge parse ced fieldsOf fetch settings del grp st w)))
              = formatError)
       \<and> (\<forall>m e. delimited 123 125 rawContent = Some m \<and> parse m = Inl e \<longrightarrow>
            mergeError (fst (fst (handleMerge parse ced fieldsOf fetch settings del grp st w)))
              = mergeFailedPrefix @ errorMessage e))
   \<and> (\<forall>i. DeleteKnowledge i \<in>
            set (fst (snd (fst (handleMerge parse ced fieldsOf fetch settings del grp st w)))) \<longrightarrow>
          del \<and> (\<exists>entry. AddKnowledge entry \<in>
            set (fst (snd (fst (handleMerge parse ced fieldsOf fetch settings del grp st w)))))
          \<and> mergeError (fst (fst (handleMerge parse ced fieldsOf fetch settings del grp st w))) = []
          \<and> i \<in> entryId ` set (entries grp))"
proof (intro conjI impI allI)
  assume "apiKey settings = []"
  then show "handleMerge parse ced fieldsOf fetch settings del grp st w =
        ((st\<lparr>mergeError := configError\<rparr>, [], None), w)"
    by (rule handleMerge_no_key)
next
  show "configError \<noteq> []" by (rule error_texts_nonempty)
next
  fix i
  assume d: "DeleteKnowledge i \<in>
      set (fst (snd (fst (handleMerge parse ced fieldsOf fetch settings del grp st w))))"
  from handleMerge_deletes[OF d]
  show "del" "\<exists>entry. AddKnowledge entry \<in>
      set (fst (snd (fst (handleMerge parse ced fieldsOf fetch settings del grp st w))))"
    "mergeError (fst (fst (handleMerge parse ced fieldsOf fetch settings del grp st w))) = []"
    "i \<in> entryId ` set (entries grp)"
    by blast+
next
  assume a: "apiKey settings \<noteq> [] \<and> renderEntries fieldsOf 0 (entries grp) = Some rendered
       \<and> fst (fetch (mergeRequest settings grp (join entrySeparator rendered)) w) = Inr res
       \<and> ok res \<and> jsonBody res = Inr data \<and> messageContent data = Inr c
       \<and> orElse c (JStr []) = JStr rawContent \<and> noParseableObject parse rawContent"
  then have t: "tryMerge parse ced grp
           (fst (fetch (mergeRequest settings grp (join entrySeparator rendered)) w)) = BadFormat
       \<or> (\<exists>e. tryMerge parse ced grp
           (fst (fetch (mergeRequest settings grp (join entrySeparator rendered)) w)) = Thrown e)"
    using noParseableObject_tryMerge[of res data c rawContent parse ced grp] by simp
  from a have k: "apiKey settings \<noteq> []"
    and r: "renderEntries fieldsOf 0 (entries grp) = Some rendered" by simp_all
  note nm = handleMerge_not_merged[where fetch = fetch and w = w and parse = parse and ced = ced
      and del = del and st = st, OF k r t]
  show "snd (snd (fst (handleMerge parse ced fieldsOf fetch settings del grp st w))) = None"
    by (rule nm(1))
  show ev: "fst (snd (fst (handleMerge parse ced fieldsOf fetch settings del grp st w))) =
           [Fetch (mergeRequest settings grp (join entrySeparator rendered))]"
    by (rule nm(2))
  show "filter touchesStore
           (fst (snd (fst (handleMerge parse ced fieldsOf fetch settings del grp st w)))) = []"
    unfolding ev by simp
  show "mergeError (fst (fst (handleMerge parse ced fieldsOf fetch settings del grp st w))) \<noteq> []"
    by (rule nm(3))
  assume "delimited 123 125 rawContent = None"
  then have "tryMerge parse ced grp
           (fst (fetch (mergeRequest settings grp (join entrySeparator rendered)) w)) = BadFormat"
    using a by (simp add: tryMerge_def)
  then show "mergeError (fst (fst (handleMerge parse ced fieldsOf fetch settings del grp st w)))
              = formatError"
    using k r by (simp add: handleMerge_def Let_def)
next
  fix m e
  assume a: "apiKey settings \<noteq> [] \<and> renderEntries fieldsOf 0 (entries grp) = Some rendered
       \<and> fst (fetch (mergeRequest settings grp (join entrySeparator rendered)) w) = Inr res
       \<and> ok res \<and> jsonBody res = Inr data \<and> messageContent data = Inr c
       \<and> orElse c (JStr []) = JStr rawContent \<and> noParseableObject parse rawContent"
    and b: "delimited 123 125 rawContent = Some m \<and> parse m = Inl e"
  then have "tryMerge parse ced grp
           (fst (fetch (mergeRequest settings grp (join entrySeparator rendered)) w)) = Thrown e"
    by (simp add: tryMerge_def)
  then show "mergeError (fst (fst (handleMerge parse ced fieldsOf fetch settings del grp st w)))
              = mergeFailedPrefix @ errorMessage e"
    using a by (simp add: handleMerge_def Let_def)
qed

lemma exampleGroup_rendered:
  "renderEntries exampleFields 0 (entries exampleGroup) =
     Some [renderEntry [(ascii ''bio'', ascii ''Bio'')] 0 (entries exampleGroup ! 0),
           renderEntry [(ascii ''bio'', ascii ''Bio'')] 1 (entries exampleGroup ! 1)]"
  by (simp add: exampleGroup_def exampleFields_def)

text \<open>
  A group of two entries. Without a key: the configuration error and nothing else.
  With a key and the reply \<open>no object here\<close>: the format error, one request. With the
  reply \<open>{nope}\<close>, which the parser rejects: the merge failure with the parser's
  message, one request. With the reply \<open>{}\<close> and the originals to be deleted: the
  merged entry is added and the two originals are deleted.
\<close>

theorem handleMerge_failures_witness:
  "handleMerge exampleParse exampleEmptyDetails exampleFields
       (always \<lparr>status = 200, jsonBody = Inr (replyBody (JStr (ascii ''{}'')))\<rparr>)
       (exampleSettings\<lparr>apiKey := []\<rparr>) True exampleGroup exampleMergeState 0
     = ((exampleMergeState\<lparr>mergeError := configError\<rparr>, [], None), 0)
   \<and> apiKey exampleSettings \<noteq> []
   \<and> noParseableObject exampleParse (ascii ''no object here'')
   \<and> noParseableObject exampleParse (ascii ''{nope}'')
   \<and> fst (handleMerge exampleParse exampleEmptyDetails exampleFields
       (always \<lparr>status = 200, jsonBody = Inr (replyBody (JStr (ascii ''no object here'')))\<rparr>)
       exampleSettings True exampleGroup exampleMergeState 0)
     = (exampleMergeState\<lparr>mergeError := formatError\<rparr>,
        [Fetch (mergeRequest exampleSettings exampleGroup
                  (join entrySeparator
                     [renderEntry [(ascii ''bio'', ascii ''Bio'')] 0 (entries exampleGroup ! 0),
                      renderEntry [(ascii ''bio'', ascii ''Bio'')] 1 (entries exampleGroup ! 1)]))],
        None)
   \<and> mergeError (fst (fst (handleMerge exampleParse exampleEmptyDetails exampleFields
       (always \<lparr>status = 200, jsonBody = Inr (replyBody (JStr (ascii ''{nope}'')))\<rparr>)
       exampleSettings True exampleGroup exampleMergeState 0)))
     = mergeFailedPrefix @ ascii ''Unexpected token''
   \<and> snd (fst (handleMerge exampleParse exampleEmptyDetails exampleFields
       (always \<lparr>status = 200, jsonBody = Inr (replyBody (JStr (ascii ''{nope}'')))\<rparr>)
       exampleSettings True exampleGroup exampleMergeState 0))
     = ([Fetch (mergeRequest exampleSettings exampleGroup
                  (join entrySeparator
                     [renderEntry [(ascii ''bio'', ascii ''Bio'')] 0 (entries exampleGroup ! 0),
                      renderEntry [(ascii ''bio'', ascii ''Bio'')] 1 (entries exampleGroup ! 1)]))],
        None)
   \<and> filter touchesStore (fst (snd (fst (handleMerge exampleParse exampleEmptyDetails exampleFields
       (always \<lparr>status = 200, jsonBody = Inr (replyBody (JStr (ascii ''{}'')))\<rparr>)
       exampleSettings True exampleGroup exampleMergeState 0))))
     = [AddKnowledge \<lparr>newCategory = Some (categoryName Person),
                       newTitle = JStr (ascii ''Li'' @ mergedSuffix), newKeywords = [],
                       newDetails = [(ascii ''bio'', JStr [])]\<rparr>,
        DeleteKnowledge (ascii ''1''), DeleteKnowledge (ascii ''2'')]"
proof -
  let ?rendered = "[renderEntry [(ascii ''bio'', ascii ''Bio'')] 0 (entries exampleGroup ! 0),
                    renderEntry [(ascii ''bio'', ascii ''Bio'')] 1 (entries exampleGroup ! 1)]"
  let ?req = "mergeRequest exampleSettings exampleGroup (join entrySeparator ?rendered)"
  have k: "apiKey exampleSettings \<noteq> []"
    by (simp add: exampleSettings_def ascii_def)
  have k0: "apiKey (exampleSettings\<lparr>apiKey := []\<rparr>) = []" by simp
  have d1: "delimited 123 125 (ascii ''no object here'') = None"
    by (simp add: delimited_def ascii_def)
  have d2: "delimited 123 125 (ascii ''{nope}'') = Some (ascii ''{nope}'')"
    by (simp add: delimited_def ascii_def)
  have d3: "delimited 123 125 (ascii ''{}'') = Some (ascii ''{}'')"
    by (simp add: delimited_def ascii_def)
  have p2: "exampleParse (ascii ''{nope}'') = Inl (SyntaxError (ascii ''Unexpected token''))"
    by (simp add: exampleParse_def ascii_def)
  have p3: "exampleParse (ascii ''{}'') = Inr (JObj [])"
    by (simp add: exampleParse_def ascii_def)
  have n1: "noParseableObject exampleParse (ascii ''no object here'')"
    by (simp add: noParseableObject_def d1)
  have n2: "noParseableObject exampleParse (ascii ''{nope}'')"
    by (simp add: noParseableObject_def d2 p2)
  have mc: "messageContent (replyBody (JStr s)) = Inr (Some (JStr s))" for s
    by (simp add: messageContent_def replyBody_def optionalChain_def)
  have oe: "s \<noteq> [] \<Longrightarrow> orElse (Some (JStr s)) (JStr []) = JStr s" for s
    by (simp add: orElse_def)
  have ne: "ascii ''no object here'' \<noteq> []" "ascii ''{nope}'' \<noteq> []" "ascii ''{}'' \<noteq> []"
    by (simp_all add: ascii_def)
  have ok: "ok \<lparr>status = 200, jsonBody = b\<rparr>" for b
    by (simp add: ok_def)
  have t1: "tryMerge exampleParse exampleEmptyDetails exampleGroup
      (Inr \<lparr>status = 200, jsonBody = Inr (replyBody (JStr (ascii ''no object here'')))\<rparr>) = BadFormat"
    by (simp add: tryMerge_def ok mc oe ne d1)
  have t2: "tryMerge exampleParse exampleEmptyDetails exampleGroup
      (Inr \<lparr>status = 200, jsonBody = Inr (replyBody (JStr (ascii ''{nope}'')))\<rparr>)
      = Thrown (SyntaxError (ascii ''Unexpected token''))"
    by (simp add: tryMerge_def ok mc oe ne d2 p2)
  have me: "mergedEntry exampleEmptyDetails exampleGroup (JObj []) =
      \<lparr>newCategory = Some (categoryName Person),
       newTitle = JStr (ascii ''Li'' @ mergedSuffix), newKeywords = [],
       newDetails = [(ascii ''bio'', JStr [])]\<rparr>"
    by (simp add: mergedEntry_def exampleEmptyDetails_def exampleGroup_def orElse_def
        templateOpt_def)
  have t3: "tryMerge exampleParse exampleEmptyDetails exampleGroup
      (Inr \<lparr>status = 200, jsonBody = Inr (replyBody (JStr (ascii ''{}'')))\<rparr>)
      = Merged (mergedEntry exampleEmptyDetails exampleGroup (JObj []))
          (MergedMessage (length (entries exampleGroup)) None)"
    by (simp add: tryMerge_def ok mc oe ne d3 p3)
  have ids: "map (\<lambda>e. DeleteKnowledge (entryId e)) (entries exampleGroup) =
      [DeleteKnowledge (ascii ''1''), DeleteKnowledge (ascii ''2'')]"
    by (simp add: exampleGroup_def)
  have run0: "handleMerge exampleParse exampleEmptyDetails exampleFields
       (always \<lparr>status = 200, jsonBody = Inr (replyBody (JStr (ascii ''{}'')))\<rparr>)
       (exampleSettings\<lparr>apiKey := []\<rparr>) True exampleGroup exampleMergeState 0
     = ((exampleMergeState\<lparr>mergeError := configError\<rparr>, [], None), 0)"
    using handleMerge_failures[of "exampleSettings\<lparr>apiKey := []\<rparr>" exampleParse
        exampleEmptyDetails exampleFields
        "always \<lparr>status = 200, jsonBody = Inr (replyBody (JStr (ascii ''{}'')))\<rparr>"
        True exampleGroup exampleMergeState 0]
    by (simp only: k0 simp_thms)
  have run1: "fst (handleMerge exampleParse exampleEmptyDetails exampleFields
       (always \<lparr>status = 200, jsonBody = Inr (replyBody (JStr (ascii ''no object here'')))\<rparr>)
       exampleSettings True exampleGroup exampleMergeState 0)
     = (exampleMergeState\<lparr>mergeError := formatError\<rparr>, [Fetch ?req], None)"
    using k by (simp add: handleMerge_def Let_def exampleGroup_rendered always_def t1
        exampleMergeState_def)
  note thm2 = handleMerge_failures[where settings = exampleSettings and parse = exampleParse
      and ced = exampleEmptyDetails and fieldsOf = exampleFields
      and fetch = "always \<lparr>status = 200, jsonBody = Inr (replyBody (JStr (ascii ''{nope}'')))\<rparr>"
      and del = True and grp = exampleGroup and st = exampleMergeState and w = "0::nat"
      and rendered = ?rendered
      and res = "\<lparr>status = 200, jsonBody = Inr (replyBody (JStr (ascii ''{nope}'')))\<rparr>"
      and data = "replyBody (JStr (ascii ''{nope}''))" and c = "Some (JStr (ascii ''{nope}''))"
      and rawContent = "ascii ''{nope}''"]
  have pre: "apiKey exampleSettings \<noteq> []
       \<and> renderEntries exampleFields 0 (entries exampleGroup) = Some ?rendered
       \<and> fst (always \<lparr>status = 200, jsonBody = Inr (replyBody (JStr (ascii ''{nope}'')))\<rparr>
              (mergeRequest exampleSettings exampleGroup (join entrySeparator ?rendered)) (0::nat))
           = Inr \<lparr>status = 200, jsonBody = Inr (replyBody (JStr (ascii ''{nope}'')))\<rparr>
       \<and> ok \<lparr>status = 200, jsonBody = Inr (replyBody (JStr (ascii ''{nope}'')))\<rparr>
       \<and> jsonBody \<lparr>status = 200, jsonBody = Inr (replyBody (JStr (ascii ''{nope}'')))\<rparr>
           = Inr (replyBody (JStr (ascii ''{nope}'')))
       \<and> messageContent (replyBody (JStr (ascii ''{nope}''))) = Inr (Some (JStr (ascii ''{nope}'')))
       \<and> orElse (Some (JStr (ascii ''{nope}''))) (JStr []) = JStr (ascii ''{nope}'')
       \<and> noParseableObject exampleParse (ascii ''{nope}'')"
    using k exampleGroup_rendered ok mc oe[OF ne(2)] n2 by (simp add: always_def)
  from thm2 pre
  have run2a: "mergeError (fst (fst (handleMerge exampleParse exampleEmptyDetails exampleFields
       (always \<lparr>status = 200, jsonBody = Inr (replyBody (JStr (ascii ''{nope}'')))\<rparr>)
       exampleSettings True exampleGroup exampleMergeState 0)))
     = mergeFailedPrefix @ errorMessage (SyntaxError (ascii ''Unexpected token''))"
    using d2 p2 by blast
  from thm2 pre
  have run2b: "snd (fst (handleMerge exampleParse exampleEmptyDetails exampleFields
       (always \<lparr>status = 200, jsonBody = Inr (replyBody (JStr (ascii ''{nope}'')))\<rparr>)
       exampleSettings True exampleGroup exampleMergeState 0))
     = ([Fetch ?req], None)"
    by (simp add: prod_eq_iff)
  have run2: "mergeError (fst (fst (handleMerge exampleParse exampleEmptyDetails exampleFields
       (always \<lparr>status = 200, jsonBody = Inr (replyBody (JStr (ascii ''{nope}'')))\<rparr>)
       exampleSettings True exampleGroup exampleMergeState 0)))
     = mergeFailedPrefix @ ascii ''Unexpected token''"
    using run2a by simp
  have run3: "filter touchesStore (fst (snd (fst (handleMerge exampleParse exampleEmptyDetails
       exampleFields
       (always \<lparr>status = 200, jsonBody = Inr (replyBody (JStr (ascii ''{}'')))\<rparr>)
       exampleSettings True exampleGroup exampleMergeState 0))))
     = [AddKnowledge (mergedEntry exampleEmptyDetails exampleGroup (JObj [])),
        DeleteKnowledge (ascii ''1''), DeleteKnowledge (ascii ''2'')]"
    using k by (simp add: handleMerge_def Let_def exampleGroup_rendered always_def t3 ids)
  show ?thesis
    using run0 k n1 n2 run1 run2 run2b run3 unfolding me by (intro conjI)
qed


section \<open>Completion replies\<close>

lemma optionalChain_bind: "access JNull = None \<Longrightarrow> optionalChain v access = Option.bind v access"
  by (cases v) (auto simp: optionalChain_def split: json.splits)

lemma messageContent_contentAt: "data \<noteq> JNull \<Longrightarrow> messageContent data = Inr (contentAt data)"
  by (simp add: messageContent_def contentAt_def optionalChain_bind)

lemma orElse_falsy: "\<not> truthy v \<Longrightarrow> orElse v d = d"
  by (cases v) (auto simp: orElse_def)

lemma completionResult_status:
  "\<not> ok res \<Longrightarrow> completionResult (Inr res) = Inl (Error (apiErrorPrefix @ numberToString (status res)))"
  by (simp add: completionResult_def)

lemma completionResult_rejected: "completionResult (Inl e) = Inl e"
  by (simp add: completionResult_def)

lemma completionResult_no_json:
  "ok res \<Longrightarrow> jsonBody res = Inl e \<Longrightarrow> completionResult (Inr res) = Inl e"
  by (simp add: completionResult_def)

lemma extractItems_status_free:
  "extractItems parse (Inr (res\<lparr>status := s\<rparr>)) = extractItems parse (Inr res)"
  by (simp add: extractItems_def)

lemma tryMerge_status:
  "\<not> ok res \<Longrightarrow> tryMerge parse ced grp (Inr res) =
     Thrown (Error (mergeApiErrorPrefix @ numberToString (status res)))"
  by (simp add: tryMerge_def)

lemma numberToString_401: "numberToString 401 = ascii ''401''"
  by (simp add: numberToString.simps ascii_def)

text \<open>
  Claim C9 at a failing input: a response with status 401 and a JSON body that has
  no \<open>choices\<close>. The extraction call reads neither \<open>res.ok\<close> nor \<open>res.status\<close>: the
  chunk gives no items and no error, not even on the console. The chat call and the
  merge call throw an error whose message carries the status.
\<close>

theorem extraction_ignores_status:
  "extractItems exampleParse
     (Inr \<lparr>status = 401, jsonBody = Inr (JObj [(ascii ''error'', JStr (ascii ''unauthorized''))])\<rparr>)
     = Inr []
   \<and> chunkEffects exampleParse 1
       (0, req, Inr \<lparr>status = 401, jsonBody = Inr (JObj [(ascii ''error'', JStr (ascii ''unauthorized''))])\<rparr>)
     = [SetProgress 1 1, Fetch req, Sleep 500]
   \<and> completionResult
       (Inr \<lparr>status = 401, jsonBody = Inr (JObj [(ascii ''error'', JStr (ascii ''unauthorized''))])\<rparr>)
     = Inl (Error (apiErrorPrefix @ ascii ''401''))
   \<and> tryMerge parse ced grp
       (Inr \<lparr>status = 401, jsonBody = Inr (JObj [(ascii ''error'', JStr (ascii ''unauthorized''))])\<rparr>)
     = Thrown (Error (mergeApiErrorPrefix @ ascii ''401''))"
proof -
  let ?res = "\<lparr>status = 401, jsonBody = Inr (JObj [(ascii ''error'', JStr (ascii ''unauthorized''))])\<rparr>"
  have nok: "\<not> ok ?res" by (simp add: ok_def)
  have mc: "messageContent (JObj [(ascii ''error'', JStr (ascii ''unauthorized''))]) = Inr None"
    by (simp add: messageContent_def optionalChain_def ascii_def)
  have d: "delimited 91 93 (ascii ''[]'') = Some (ascii ''[]'')"
    by (simp add: delimited_def ascii_def)
  have p: "exampleParse (ascii ''[]'') = Inr (JArr [])"
    by (simp add: exampleParse_def ascii_def)
  have ex: "extractItems exampleParse (Inr ?res) = Inr []"
    by (simp add: extractItems_def mc orElse_def d p)
  have ce: "chunkEffects exampleParse 1 (0, req, Inr ?res) = [SetProgress 1 1, Fetch req, Sleep 500]"
    by (simp add: chunkEffects_def ex)
  show ?thesis
    using ex ce completionResult_status[OF nok] tryMerge_status[OF nok, of parse ced grp]
    by (simp add: numberToString_401)
qed

text \<open>
  Claim C10, as amended. When the response has a status from 200 to 299 and its JSON
  body is not \<open>null\<close> and has nothing, or a value that counts as false, at
  \<open>choices[0].message.content\<close>, \<open>sendToAI\<close> resolves with the placeholder; a reply
  whose content is the placeholder text resolves with the same value.
\<close>

theorem sendToAI_placeholder:
  assumes "fst (fetch (chatRequest lc fieldsOf store msgs settings currentContent) w) = Inr res"
    and "ok res" and "jsonBody res = Inr data" and "data \<noteq> JNull"
    and "\<not> truthy (contentAt data)"
  shows "fst (sendToAI lc fieldsOf fetch store msgs settings currentContent w) = Inr (JStr noResponse)
     \<and> completionResult (Inr (res\<lparr>jsonBody := Inr (replyBody (JStr noResponse))\<rparr>))
         = Inr (JStr noResponse)"
proof -
  have "completionResult (Inr res) = Inr (JStr noResponse)"
    using assms(2-5) by (simp add: completionResult_def messageContent_contentAt orElse_falsy)
  moreover have "completionResult (Inr (res\<lparr>jsonBody := Inr (replyBody (JStr noResponse))\<rparr>))
      = Inr (JStr noResponse)"
    using assms(2)
    by (simp add: completionResult_def ok_def replyBody_def messageContent_def optionalChain_def
        orElse_def noResponse_def)
  ultimately show ?thesis using assms(1) by (simp add: sendToAI_def Let_def)
qed

text \<open>The body with an empty \<open>choices\<close> array.\<close>

theorem sendToAI_placeholder_witness:
  "ok \<lparr>status = 200, jsonBody = Inr (JObj [(ascii ''choices'', JArr [])])\<rparr>
   \<and> JObj [(ascii ''choices'', JArr [])] \<noteq> JNull
   \<and> contentAt (JObj [(ascii ''choices'', JArr [])]) = None
   \<and> fst (sendToAI asciiLower exampleFields
            (always \<lparr>status = 200, jsonBody = Inr (JObj [(ascii ''choices'', JArr [])])\<rparr>)
            \<lparr>knowledge = [], externalKnowledge = []\<rparr> [(ascii ''user'', ascii ''hello'')]
            exampleSettings None 0)
       = Inr (JStr noResponse)"
proof -
  let ?data = "JObj [(ascii ''choices'', JArr [])]"
  let ?res = "\<lparr>status = 200, jsonBody = Inr ?data\<rparr>"
  have 2: "ok ?res" by (simp add: ok_def)
  have c: "contentAt ?data = None" by (simp add: contentAt_def)
  have "fst (sendToAI asciiLower exampleFields (always ?res)
            \<lparr>knowledge = [], externalKnowledge = []\<rparr> [(ascii ''user'', ascii ''hello'')]
            exampleSettings None 0) = Inr (JStr noResponse)
     \<and> completionResult (Inr (?res\<lparr>jsonBody := Inr (replyBody (JStr noResponse))\<rparr>))
         = Inr (JStr noResponse)"
    by (rule sendToAI_placeholder[where res = ?res and data = ?data])
       (simp_all add: always_def ok_def c)
  then show ?thesis using 2 c by simp
qed

text \<open>
  Claim C10 as stated fails on the body \<open>null\<close>: it has no
  \<open>choices[0].message.content\<close>, and reading \<open>data.choices\<close> throws a \<open>TypeError\<close>.
\<close>

theorem sendToAI_null_body:
  "ok \<lparr>status = 200, jsonBody = Inr JNull\<rparr>
   \<and> contentAt JNull = None
   \<and> fst (sendToAI asciiLower exampleFields (always \<lparr>status = 200, jsonBody = Inr JNull\<rparr>)
            \<lparr>knowledge = [], externalKnowledge = []\<rparr> [(ascii ''user'', ascii ''hello'')]
            exampleSettings None 0)
       = Inl (TypeError nullReadMessage)"
  by (simp add: ok_def contentAt_def sendToAI_def always_def completionResult_def messageContent_def)

end
